theory Spec2Isabelle
  imports Main "HOL-Library.Word"
begin

unbundle bit_operations_syntax

section \<open>Python values, exceptions and string primitives\<close>

text \<open>
  The module \<^verbatim>\<open>hanSolo/__init__.py\<close> is embedded function by function. A Python
  exception is a value of \<open>py_error\<close>; a function that can raise returns
  \<open>py_error + 'a\<close> with \<open>Inl\<close> for the exception. \<open>External_error\<close> stands for any
  exception raised by code outside the module (a subscriber callback, the transport).
\<close>

type_synonym byte = "8 word"

datatype py_error = ValueError | IndexError | TypeError | UnboundLocalError | External_error

definition bind_exc :: "py_error + 'a \<Rightarrow> ('a \<Rightarrow> py_error + 'b) \<Rightarrow> py_error + 'b" where
  "bind_exc r f = (case r of Inl e \<Rightarrow> Inl e | Inr x \<Rightarrow> f x)"

text \<open>Python's \<^verbatim>\<open>s[i:j]\<close> for non-negative constant bounds; out-of-range bounds are clamped.\<close>

definition slice :: "nat \<Rightarrow> nat \<Rightarrow> 'a list \<Rightarrow> 'a list" where
  "slice i j xs = take (j - i) (drop i xs)"

subsection \<open>\<^verbatim>\<open>int(s, 16)\<close>\<close>

text \<open>
  \<^verbatim>\<open>int(s, 16)\<close> on a string of hexadecimal digits: \<^verbatim>\<open>ValueError\<close> on the empty
  string, the value otherwise. The decoder only ever receives the output of line 189,
  whose characters are \<^verbatim>\<open>0-9A-F\<close> (lemma \<open>hexbuf_alphabet\<close>); on other characters
  the model raises \<^verbatim>\<open>ValueError\<close>, which is what Python does except for the sign,
  whitespace, underscore and \<^verbatim>\<open>0x\<close> forms that such a buffer cannot contain.
\<close>

definition hex_value :: "char \<Rightarrow> int option" where
  "hex_value c =
     (let n = (of_char c :: nat) in
      if 48 \<le> n \<and> n \<le> 57 then Some (int n - 48)
      else if 65 \<le> n \<and> n \<le> 70 then Some (int n - 55)
      else if 97 \<le> n \<and> n \<le> 102 then Some (int n - 87)
      else None)"

fun int16_digits :: "int \<Rightarrow> string \<Rightarrow> int option" where
  "int16_digits acc [] = Some acc"
| "int16_digits acc (c # cs) =
     (case hex_value c of None \<Rightarrow> None | Some v \<Rightarrow> int16_digits (acc * 16 + v) cs)"

definition py_int16 :: "string \<Rightarrow> py_error + int" where
  "py_int16 s =
     (if s = [] then Inl ValueError
      else case int16_digits 0 s of None \<Rightarrow> Inl ValueError | Some n \<Rightarrow> Inr n)"

subsection \<open>\<^verbatim>\<open>'{:02x}'.format(x).upper()\<close> (line 189)\<close>

definition hex_digit :: "nat \<Rightarrow> char" where
  "hex_digit n = ''0123456789ABCDEF'' ! n"

definition format_02X :: "byte \<Rightarrow> string" where
  "format_02X x = [hex_digit (unat x div 16), hex_digit (unat x mod 16)]"

definition hexbuf :: "byte list \<Rightarrow> string" where
  "hexbuf data = concat (map format_02X data)"

subsection \<open>\<^verbatim>\<open>base64.b16decode(s).decode("utf-8")\<close>\<close>

text \<open>
  \<^verbatim>\<open>b16decode\<close> accepts the upper-case alphabet only and an even number of digits;
  its \<^verbatim>\<open>binascii.Error\<close> and the decoder's \<^verbatim>\<open>UnicodeDecodeError\<close> are both
  subclasses of \<^verbatim>\<open>ValueError\<close>.
\<close>

definition b16_value :: "char \<Rightarrow> nat option" where
  "b16_value c =
     (let n = (of_char c :: nat) in
      if 48 \<le> n \<and> n \<le> 57 then Some (n - 48)
      else if 65 \<le> n \<and> n \<le> 70 then Some (n - 55)
      else None)"

fun unhexlify :: "string \<Rightarrow> nat list option" where
  "unhexlify [] = Some []"
| "unhexlify [c] = None"
| "unhexlify (a # b # cs) =
     (case b16_value a of None \<Rightarrow> None
      | Some h \<Rightarrow> (case b16_value b of None \<Rightarrow> None
      | Some l \<Rightarrow> (case unhexlify cs of None \<Rightarrow> None
      | Some r \<Rightarrow> Some ((h * 16 + l) # r))))"

text \<open>
  Strict UTF-8, as CPython decodes it: shortest forms only, no surrogates, nothing above
  U+10FFFF. The result is the list of code points of the Python string.
\<close>

definition is_cont :: "nat \<Rightarrow> bool" where
  "is_cont b = (128 \<le> b \<and> b \<le> 191)"

definition utf8_len :: "nat \<Rightarrow> nat" where
  \<comment> \<open>bytes in the sequence a lead byte starts; 0 for a byte that cannot lead\<close>
  "utf8_len b0 =
     (if b0 < 128 then 1
      else if 194 \<le> b0 \<and> b0 \<le> 223 then 2
      else if 224 \<le> b0 \<and> b0 \<le> 239 then 3
      else if 240 \<le> b0 \<and> b0 \<le> 244 then 4
      else 0)"

definition utf8_second :: "nat \<Rightarrow> nat \<times> nat" where
  \<comment> \<open>the range of the second byte after a lead byte\<close>
  "utf8_second b0 =
     (if b0 = 224 then (160, 191)
      else if b0 = 237 then (128, 159)
      else if b0 = 240 then (144, 191)
      else if b0 = 244 then (128, 143)
      else (128, 191))"

definition utf8_seq_ok :: "nat \<Rightarrow> nat list \<Rightarrow> bool" where
  "utf8_seq_ok b0 rest =
     (case rest of [] \<Rightarrow> True
      | b1 # r \<Rightarrow> fst (utf8_second b0) \<le> b1 \<and> b1 \<le> snd (utf8_second b0) \<and> list_all is_cont r)"

definition utf8_code_point :: "nat \<Rightarrow> nat list \<Rightarrow> nat" where
  "utf8_code_point b0 rest =
     foldl (\<lambda>a b. a * 64 + (b - 128))
       (if b0 < 128 then b0 else if b0 < 224 then b0 - 192
        else if b0 < 240 then b0 - 224 else b0 - 240)
       rest"

fun utf8_decode :: "nat list \<Rightarrow> nat list option" where
  "utf8_decode [] = Some []"
| "utf8_decode (b0 # bs) =
     (let n = utf8_len b0; rest = take (n - 1) bs in
      if n = 0 \<or> length bs < n - 1 \<or> \<not> utf8_seq_ok b0 rest then None
      else map_option (Cons (utf8_code_point b0 rest)) (utf8_decode (drop (n - 1) bs)))"

definition b16decode_utf8 :: "string \<Rightarrow> py_error + nat list" where
  "b16decode_utf8 s =
     (case unhexlify s of None \<Rightarrow> Inl ValueError
      | Some bs \<Rightarrow> (case utf8_decode bs of None \<Rightarrow> Inl ValueError | Some cps \<Rightarrow> Inr cps))"

subsection \<open>\<^verbatim>\<open>"%02d" % n\<close> and \<^verbatim>\<open>datetime.strptime\<close>\<close>

datatype datetime = Datetime int int int int int int
  \<comment> \<open>year, month, day, hour, minute, second\<close>

function dec_digits :: "nat \<Rightarrow> string" where
  "dec_digits n =
     (if n < 10 then [''0123456789'' ! n]
      else dec_digits (n div 10) @ [''0123456789'' ! (n mod 10)])"
  by pat_completeness auto
termination
  by (relation "measure id") auto

declare dec_digits.simps [simp del]

definition format_02d :: "int \<Rightarrow> string" where
  "format_02d n =
     (if n < 0 then CHR ''-'' # dec_digits (nat (- n))
      else if n < 10 then CHR ''0'' # dec_digits (nat n)
      else dec_digits (nat n))"

text \<open>
  \<^verbatim>\<open>strptime\<close> compiles its format into a regular expression, one named group per
  directive (CPython's \<^verbatim>\<open>_strptime.TimeRE\<close>), matches it at the start of the string
  with the backtracking matcher of \<^verbatim>\<open>re\<close>, and raises \<^verbatim>\<open>ValueError\<close> when
  nothing matches or when the first match leaves text unconsumed. An alternative of a
  group is a sequence of character classes, a class the string of its characters; the
  matches of a sequence of groups are listed in the matcher's order of preference, so
  the head of the list is the match \<^verbatim>\<open>re\<close> returns.
\<close>

type_synonym regex_alt = "string list"

definition digit :: string where
  "digit = ''0123456789''"

definition directive :: "char \<Rightarrow> regex_alt list" where
  "directive c =
     (if c = CHR ''d'' then
        [[''3'', ''01''], [''12'', digit], [''0'', ''123456789''], [''123456789''],
         ['' '', ''123456789'']]
      else if c = CHR ''H'' then [[''2'', ''0123''], [''01'', digit], [digit]]
      else if c = CHR ''m'' then [[''1'', ''012''], [''0'', ''123456789''], [''123456789'']]
      else if c = CHR ''M'' then [[''012345'', digit], [digit]]
      else if c = CHR ''S'' then [[''6'', ''01''], [''012345'', digit], [digit]]
      else if c = CHR ''Y'' then [[digit, digit, digit, digit]]
      else [])"

datatype fmt_item = Directive char | Literal char

fun match_alt :: "regex_alt \<Rightarrow> string \<Rightarrow> (string \<times> string) option" where
  "match_alt [] s = Some ([], s)"
| "match_alt (cls # rest) [] = None"
| "match_alt (cls # rest) (c # s) =
     (if c \<in> set cls
      then (case match_alt rest s of None \<Rightarrow> None | Some (m, r) \<Rightarrow> Some (c # m, r))
      else None)"

fun match_item :: "fmt_item \<Rightarrow> string \<Rightarrow> ((char \<times> string) list \<times> string) list" where
  "match_item (Literal c) s = (case s of [] \<Rightarrow> [] | x # r \<Rightarrow> if x = c then [([], r)] else [])"
| "match_item (Directive d) s =
     map (\<lambda>(m, r). ([(d, m)], r)) (List.map_filter (\<lambda>alt. match_alt alt s) (directive d))"

fun match_seq :: "fmt_item list \<Rightarrow> string \<Rightarrow> ((char \<times> string) list \<times> string) list" where
  "match_seq [] s = [([], s)]"
| "match_seq (it # its) s =
     concat (map (\<lambda>(g, r). map (\<lambda>(gs, r'). (g @ gs, r')) (match_seq its r)) (match_item it s))"

definition dec_value :: "string \<Rightarrow> int" where
  \<comment> \<open>\<^verbatim>\<open>int(found_dict[...])\<close> on a matched group: decimal digits after optional blanks\<close>
  "dec_value s =
     foldl (\<lambda>a c. a * 10 + (int (of_char c) - 48)) 0 (filter (\<lambda>c. c \<noteq> CHR '' '') s)"

definition group :: "(char \<times> string) list \<Rightarrow> char \<Rightarrow> int" where
  "group g d = (case map_of g d of None \<Rightarrow> 0 | Some s \<Rightarrow> dec_value s)"

definition is_leap :: "int \<Rightarrow> bool" where
  "is_leap y = (y mod 4 = 0 \<and> (y mod 100 \<noteq> 0 \<or> y mod 400 = 0))"

definition days_in_month :: "int \<Rightarrow> int \<Rightarrow> int" where
  "days_in_month y m =
     (if m = 2 then (if is_leap y then 29 else 28)
      else if m = 4 \<or> m = 6 \<or> m = 9 \<or> m = 11 then 30 else 31)"

definition make_datetime :: "int \<Rightarrow> int \<Rightarrow> int \<Rightarrow> int \<Rightarrow> int \<Rightarrow> int \<Rightarrow> py_error + datetime" where
  \<comment> \<open>the range checks of the \<^verbatim>\<open>date\<close> and \<^verbatim>\<open>datetime\<close> constructors\<close>
  "make_datetime y m d H M S =
     (if 1 \<le> y \<and> y \<le> 9999 \<and> 1 \<le> m \<and> m \<le> 12 \<and> 1 \<le> d \<and> d \<le> days_in_month y m
         \<and> 0 \<le> H \<and> H \<le> 23 \<and> 0 \<le> M \<and> M \<le> 59 \<and> 0 \<le> S \<and> S \<le> 59
      then Inr (Datetime y m d H M S) else Inl ValueError)"

definition time_format :: "fmt_item list" where
  \<comment> \<open>\<^verbatim>\<open>'%S%M%H_%d%m%Y'\<close> (line 242)\<close>
  "time_format =
     [Directive (CHR ''S''), Directive (CHR ''M''), Directive (CHR ''H''), Literal (CHR ''_''),
      Directive (CHR ''d''), Directive (CHR ''m''), Directive (CHR ''Y'')]"

definition strptime :: "string \<Rightarrow> fmt_item list \<Rightarrow> py_error + datetime" where
  "strptime date_string fmt =
     (case match_seq fmt date_string of
        [] \<Rightarrow> Inl ValueError
      | (g, rest) # _ \<Rightarrow>
          if rest \<noteq> [] then Inl ValueError
          else make_datetime (group g (CHR ''Y'')) (group g (CHR ''m'')) (group g (CHR ''d''))
                 (group g (CHR ''H'')) (group g (CHR ''M'')) (group g (CHR ''S'')))"

section \<open>The Kaifa decoder (lines 219-272)\<close>

datatype py_value = Py_int int | Py_str "nat list" | Py_datetime datetime

text \<open>
  A Reading is the dictionary \<^verbatim>\<open>res\<close>: its items in insertion order.
  \<open>setitem\<close> is \<^verbatim>\<open>res[k] = v\<close>.
\<close>

type_synonym reading = "(string \<times> py_value) list"

fun setitem :: "('k \<times> 'v) list \<Rightarrow> 'k \<Rightarrow> 'v \<Rightarrow> ('k \<times> 'v) list" where
  "setitem [] k v = [(k, v)]"
| "setitem ((k', v') # r) k v = (if k' = k then (k, v) # r else (k', v') # setitem r k v)"

definition keys :: "reading \<Rightarrow> string set" where
  "keys r = set (map fst r)"

definition parse_time_stamp :: "string \<Rightarrow> py_error + datetime" where
  \<comment> \<open>lines 233-242, on the buffer after the header\<close>
  "parse_time_stamp buf =
     bind_exc (py_int16 (slice 4 8 buf)) (\<lambda>year.
     bind_exc (py_int16 (slice 8 10 buf)) (\<lambda>month.
     bind_exc (py_int16 (slice 10 12 buf)) (\<lambda>day.
     bind_exc (py_int16 (slice 14 16 buf)) (\<lambda>hour.
     bind_exc (py_int16 (slice 16 18 buf)) (\<lambda>minute.
     bind_exc (py_int16 (slice 18 20 buf)) (\<lambda>second.
       strptime
         (format_02d second @ format_02d minute @ format_02d hour @ ''_''
            @ format_02d day @ format_02d month @ format_02d year)
         time_format))))))"

definition decode_identity :: "string \<Rightarrow> reading \<Rightarrow> py_error + (string \<times> reading)" where
  \<comment> \<open>lines 249-255: the three text fields and Effect of types 09 and 0E; returns the
      buffer as line 254 leaves it\<close>
  "decode_identity txt_buf res =
     bind_exc (b16decode_utf8 (slice 4 18 txt_buf)) (\<lambda>version.
       let res = setitem res ''Version identifier'' (Py_str version);
           txt_buf = drop 18 txt_buf in
     bind_exc (b16decode_utf8 (slice 4 36 txt_buf)) (\<lambda>meter_id.
       let res = setitem res ''Meter-ID'' (Py_str meter_id);
           txt_buf = drop 36 txt_buf in
     bind_exc (b16decode_utf8 (slice 4 20 txt_buf)) (\<lambda>meter_type.
       let res = setitem res ''Meter type'' (Py_str meter_type);
           txt_buf = drop 20 txt_buf in
     bind_exc (py_int16 (slice 2 10 txt_buf)) (\<lambda>effect.
       Inr (txt_buf, setitem res ''Effect'' (Py_int effect))))))"

definition decode_cumulative :: "string \<Rightarrow> reading \<Rightarrow> py_error + reading" where
  \<comment> \<open>lines 257-265: the four counters of type 0E\<close>
  "decode_cumulative txt_buf res =
     (let txt_buf = drop 10 txt_buf;
          txt_buf = drop 78 txt_buf in
      bind_exc (py_int16 (slice 2 10 txt_buf)) (\<lambda>a_plus.
        let res = setitem res ''Cumulative_hourly_active_import_energy'' (Py_int a_plus);
            txt_buf = drop 10 txt_buf in
      bind_exc (py_int16 (slice 2 10 txt_buf)) (\<lambda>a_minus.
        let res = setitem res ''Cumulative_hourly_active_export_energy'' (Py_int a_minus);
            txt_buf = drop 10 txt_buf in
      bind_exc (py_int16 (slice 2 10 txt_buf)) (\<lambda>r_plus.
        let res = setitem res ''Cumulative_hourly_reactive_import_energy'' (Py_int r_plus);
            txt_buf = drop 10 txt_buf in
      bind_exc (py_int16 (slice 2 10 txt_buf)) (\<lambda>r_minus.
        Inr (setitem res ''Cumulative_hourly_reactive_export_energy'' (Py_int r_minus)))))))"

definition decode_fields :: "string \<Rightarrow> reading \<Rightarrow> py_error + reading option" where
  \<comment> \<open>lines 244-268, \<open>txt_buf\<close> starting at the data-type tag\<close>
  "decode_fields txt_buf res =
     (let pkt_type = slice 2 4 txt_buf;
          txt_buf = drop 4 txt_buf in
      if pkt_type = ''01'' then
        bind_exc (py_int16 (slice 2 10 txt_buf)) (\<lambda>effect.
          Inr (Some (setitem res ''Effect'' (Py_int effect))))
      else if pkt_type \<in> set [''09'', ''0E''] then
        bind_exc (decode_identity txt_buf res) (\<lambda>(txt_buf, res).
          if pkt_type = ''0E''
          then bind_exc (decode_cumulative txt_buf res) (\<lambda>res. Inr (Some res))
          else Inr (Some res))
      else Inr None)"

definition decode_try :: "string \<Rightarrow> py_error + reading option" where
  \<comment> \<open>the body of the \<^verbatim>\<open>try\<close> (lines 228-268). Line 230 evaluates \<^verbatim>\<open>buf[0]\<close> for
      its log message: \<^verbatim>\<open>IndexError\<close> when nothing follows the header.\<close>
  "decode_try buf =
     (let txt_buf = drop 28 buf in
      if take 2 txt_buf \<noteq> ''02'' then (if buf = [] then Inl IndexError else Inr None)
      else
        bind_exc (parse_time_stamp buf) (\<lambda>ts.
          decode_fields txt_buf (setitem [] ''time_stamp'' (Py_datetime ts))))"

definition decode_kaifa :: "string \<Rightarrow> py_error + reading option" where
  \<comment> \<open>\<^verbatim>\<open>except ValueError\<close> (line 269) turns a \<^verbatim>\<open>ValueError\<close> of the \<^verbatim>\<open>try\<close> body
      into \<^verbatim>\<open>None\<close>; any other exception leaves the function. Line 223 is outside
      the \<^verbatim>\<open>try\<close>.\<close>
  "decode_kaifa buf =
     (if slice 10 12 buf \<noteq> ''10'' then Inr None
      else
        bind_exc (py_int16 (slice 2 4 buf)) (\<lambda>declared.
          if declared * 2 \<noteq> int (length buf) then Inr None
          else (case decode_try (drop 32 buf) of
                  Inl e \<Rightarrow> (if e = ValueError then Inr None else Inl e)
                | Inr r \<Rightarrow> Inr r)))"

subsection \<open>Vocabulary for statements about the decoder\<close>

definition pkt_type :: "string \<Rightarrow> string" where
  \<comment> \<open>the record-type tag: \<^verbatim>\<open>pkt_type\<close> of line 244, read from the whole buffer\<close>
  "pkt_type buf = slice 2 4 (drop 28 (drop 32 buf))"

definition be_int :: "byte list \<Rightarrow> int" where
  \<comment> \<open>the unsigned big-endian integer a byte string denotes\<close>
  "be_int d = foldl (\<lambda>a b. a * 256 + uint b) 0 d"

definition text_field :: "nat \<Rightarrow> nat \<Rightarrow> byte list \<Rightarrow> nat list option" where
  \<comment> \<open>the text that the \<open>n\<close> bytes at offset \<open>k\<close> encode in UTF-8, when they encode one\<close>
  "text_field k n d = utf8_decode (map unat (take n (drop k d)))"

definition validations_pass :: "string \<Rightarrow> bool" where
  \<comment> \<open>the three checks of lines 220, 223 and 229: the control field, the declared
      length, and the data-type tag, which line 228 reads 14 bytes after the 16-byte
      header\<close>
  "validations_pass buf =
     (slice 10 12 buf = ''10''
      \<and> (case py_int16 (slice 2 4 buf) of Inl e \<Rightarrow> False | Inr n \<Rightarrow> n * 2 = int (length buf))
      \<and> take 2 (drop 28 (drop 32 buf)) = ''02'')"

section \<open>The checksum function (line 43)\<close>

text \<open>
  \<^verbatim>\<open>crcmod.mkCrcFun(poly, rev, initCrc, xorOut)\<close> is a third-party library function;
  it is modelled from its documentation, bit by bit instead of by table. The generator
  polynomial carries its leading bit, so \<^verbatim>\<open>0x11021\<close> has width 16. With \<^verbatim>\<open>rev\<close> (here \<open>reversed\<close>) the
  register shifts right and the polynomial is bit-reversed. The register starts at
  \<open>initCrc XOR xorOut\<close> and the result is the register \<open>XOR xorOut\<close>.
\<close>

function bit_length :: "nat \<Rightarrow> nat" where
  "bit_length n = (if n = 0 then 0 else Suc (bit_length (n div 2)))"
  by pat_completeness auto
termination
  by (relation "measure id") auto

declare bit_length.simps [simp del]

definition bit_reverse :: "nat \<Rightarrow> nat \<Rightarrow> nat" where
  "bit_reverse w x = foldl (\<lambda>a i. 2 * a + (if bit x i then 1 else 0)) 0 [0..<w]"

definition crc_shift_rev :: "nat \<Rightarrow> nat \<Rightarrow> nat" where
  "crc_shift_rev rpoly c = (if odd c then (c div 2) XOR rpoly else c div 2)"

definition crc_byte_rev :: "nat \<Rightarrow> nat \<Rightarrow> nat \<Rightarrow> nat" where
  "crc_byte_rev rpoly c b = (crc_shift_rev rpoly ^^ 8) (c XOR b)"

definition crc_shift_fwd :: "nat \<Rightarrow> nat \<Rightarrow> nat \<Rightarrow> nat" where
  "crc_shift_fwd w poly c =
     (if bit c (w - 1) then ((2 * c) XOR poly) mod 2 ^ w else (2 * c) mod 2 ^ w)"

definition crc_byte_fwd :: "nat \<Rightarrow> nat \<Rightarrow> nat \<Rightarrow> nat \<Rightarrow> nat" where
  "crc_byte_fwd w poly c b = (crc_shift_fwd w poly ^^ 8) (c XOR (b * 2 ^ (w - 8)))"

definition mkCrcFun :: "nat \<Rightarrow> bool \<Rightarrow> nat \<Rightarrow> nat \<Rightarrow> byte list \<Rightarrow> int" where
  "mkCrcFun poly reversed initCrc xorOut data =
     (let w = bit_length poly - 1;
          p = poly mod 2 ^ w;
          reg = initCrc XOR xorOut;
          reg = (if reversed then foldl (crc_byte_rev (bit_reverse w p)) reg (map unat data)
                 else foldl (crc_byte_fwd w p) reg (map unat data))
      in int (reg XOR xorOut))"

definition unpack_H :: "byte list \<Rightarrow> int" where
  \<comment> \<open>\<^verbatim>\<open>struct.unpack("<H", b)[0]\<close> on two bytes\<close>
  "unpack_H b = uint (b ! 0) + 256 * uint (b ! 1)"

section \<open>The subscription manager (lines 25-216)\<close>

datatype conn_state = STATE_STARTING | STATE_RUNNING | STATE_STOPPED

definition FEND :: byte where
  "FEND = 126"

text \<open>
  A received message is \<^verbatim>\<open>aiohttp.WSMessage\<close>: its type and its data. The data of a
  binary message is a byte string, of a text message a string; \<open>Object\<close> is any other
  value (a close code, an exception).
\<close>

datatype ws_msg_type = CONTINUATION | TEXT | BINARY | PING | PONG | CLOSE | CLOSING | CLOSED | ERROR

datatype payload = Bytes "byte list" | Text string | Object

record ws_msg =
  msg_type :: ws_msg_type
  msg_data :: "payload option"

text \<open>
  What the manager does to the world outside it is recorded, in order, in \<open>trace\<close>:
  the messages logged at error level by the class, the calls of subscriber callbacks, and
  the calls on the transport, the event loop's tasks and its timers. Messages logged at
  debug level, the two \<^verbatim>\<open>print\<close> calls and the messages the decoder logs are not
  recorded.
\<close>

datatype log_msg =
    Invalid_data
  | Invalid_crc int int
  | No_data_reconnecting
  | No_response_to_ping
  | Unexpected_error py_error

datatype 'cb event =
    Log_error log_msg
  | Called 'cb "reading option"
  | Ws_close
  | Ws_ping
  | Task_created
  | Task_cancelled
  | Timer_scheduled nat
  | Timer_cancelled

datatype handle = Handle

type_synonym decoder = "string \<Rightarrow> py_error + reading option"

record 'cb manager =
  subscriptions :: "'cb list"
  state :: "conn_state option"
  websocket :: "handle option"
  retry_timer :: "handle option"
  client_task :: "handle option"
  wait_time_before_retry :: nat
  show_connection_error :: bool
  is_running :: bool
  crc :: "byte list \<Rightarrow> int"
  decoders :: "decoder list"
  default_decoder :: decoder
  trace :: "'cb event list"

definition init :: "'cb manager" where
  \<comment> \<open>\<^verbatim>\<open>__init__\<close> (lines 30-45)\<close>
  "init =
     \<lparr> subscriptions = [], state = None, websocket = None, retry_timer = None,
       client_task = None, wait_time_before_retry = 15, show_connection_error = True,
       is_running = False, crc = mkCrcFun 0x11021 True 0xffff 0x0000,
       decoders = [decode_kaifa], default_decoder = decode_kaifa, trace = [] \<rparr>"

definition emit :: "'cb event \<Rightarrow> 'cb manager \<Rightarrow> 'cb manager" where
  "emit e s = s\<lparr>trace := trace s @ [e]\<rparr>"

definition cancel_retry_timer :: "'cb manager \<Rightarrow> 'cb manager" where
  "cancel_retry_timer s =
     (if retry_timer s = None then s else (emit Timer_cancelled s)\<lparr>retry_timer := None\<rparr>)"

definition cancel_client_task :: "'cb manager \<Rightarrow> 'cb manager" where
  "cancel_client_task s =
     (if client_task s = None then s else (emit Task_cancelled s)\<lparr>client_task := None\<rparr>)"

definition close_websocket :: "'cb manager \<Rightarrow> 'cb manager" where
  "close_websocket s =
     (if websocket s = None then s else (emit Ws_close s)\<lparr>websocket := None\<rparr>)"

definition start :: "'cb manager \<Rightarrow> 'cb manager" where
  \<comment> \<open>lines 47-54; the task created runs \<open>running\<close>\<close>
  "start s =
     (if state s = Some STATE_RUNNING then s
      else
        let s = s\<lparr>state := Some STATE_STARTING\<rparr>;
            s = cancel_client_task s
        in (emit Task_created s)\<lparr>client_task := Some Handle\<rparr>)"

definition retry :: "'cb manager \<Rightarrow> 'cb manager" where
  \<comment> \<open>lines 133-148; the timer scheduled calls \<open>start\<close> after the delay\<close>
  "retry s =
     (if state s \<in> set [Some STATE_STARTING, Some STATE_RUNNING] then s
      else
        let s = cancel_retry_timer s;
            s = s\<lparr>state := Some STATE_STARTING\<rparr>
        in (emit (Timer_scheduled (wait_time_before_retry s)) s)\<lparr>retry_timer := Some Handle\<rparr>)"

definition subscribe :: "'cb manager \<Rightarrow> 'cb \<Rightarrow> 'cb manager" where
  "subscribe s callback =
     (if callback \<in> set (subscriptions s) then s
      else s\<lparr>subscriptions := subscriptions s @ [callback]\<rparr>)"

definition unsubscribe :: "'cb manager \<Rightarrow> 'cb \<Rightarrow> 'cb manager" where
  "unsubscribe s callback =
     (if callback \<notin> set (subscriptions s) then s
      else s\<lparr>subscriptions := remove1 callback (subscriptions s)\<rparr>)"

subsection \<open>Processing one message (lines 170-200)\<close>

text \<open>
  A subscriber callback is code of the caller: \<open>X cb r\<close> is the exception it raises when
  called with \<open>r\<close>, \<open>None\<close> when it returns. Callbacks are taken not to call back into
  the manager while a message is dispatched.
\<close>

type_synonym 'cb callbacks = "'cb \<Rightarrow> reading option \<Rightarrow> py_error option"

fun dispatch :: "'cb callbacks \<Rightarrow> 'cb list \<Rightarrow> reading option \<Rightarrow> 'cb manager
                   \<Rightarrow> 'cb manager \<times> py_error option" where
  "dispatch X [] r s = (s, None)"
| "dispatch X (cb # cbs) r s =
     (let s = emit (Called cb r) s in
      case X cb r of Some e \<Rightarrow> (s, Some e) | None \<Rightarrow> dispatch X cbs r s)"

fun try_decoders :: "decoder list \<Rightarrow> string \<Rightarrow> py_error + (reading \<times> decoder) option" where
  \<comment> \<open>the loop of lines 192-196: the first decoder that returns a reading\<close>
  "try_decoders [] buf = Inr None"
| "try_decoders (d # ds) buf =
     (case d buf of
        Inl e \<Rightarrow> Inl e
      | Inr None \<Rightarrow> try_decoders ds buf
      | Inr (Some r) \<Rightarrow> Inr (Some (r, d)))"

definition run_decoders :: "'cb manager \<Rightarrow> string \<Rightarrow> 'cb manager \<times> (py_error + reading option)" where
  \<comment> \<open>lines 190-196\<close>
  "run_decoders s buf =
     (case default_decoder s buf of
        Inl e \<Rightarrow> (s, Inl e)
      | Inr (Some r) \<Rightarrow> (s, Inr (Some r))
      | Inr None \<Rightarrow>
          (case try_decoders (decoders s) buf of
             Inl e \<Rightarrow> (s, Inl e)
           | Inr None \<Rightarrow> (s, Inr None)
           | Inr (Some (r, d)) \<Rightarrow> (s\<lparr>default_decoder := d\<rparr>, Inr (Some r))))"

definition structurally_invalid :: "byte list \<Rightarrow> bool" where
  \<comment> \<open>the condition of lines 178-180\<close>
  "structurally_invalid d = (length d < 9 \<or> \<not> d ! 0 = FEND \<or> \<not> last d = FEND)"

definition check_crc :: "'cb manager \<Rightarrow> byte list \<Rightarrow> 'cb manager" where
  \<comment> \<open>lines 184-187, on the frame without its delimiters\<close>
  "check_crc s d =
     (let c = crc s (take (length d - 2) d);
          c = c XOR 0xffff;
          stored = unpack_H (drop (length d - 2) d)
      in if c \<noteq> stored then emit (Log_error (Invalid_crc c stored)) s else s)"

definition process_frame :: "'cb callbacks \<Rightarrow> 'cb manager \<Rightarrow> byte list
                              \<Rightarrow> 'cb manager \<times> py_error option" where
  \<comment> \<open>lines 183-200 for a binary message whose frame passed lines 178-180\<close>
  "process_frame X s raw =
     (let d = butlast (tl raw);
          s = check_crc s d;
          buf = hexbuf d
      in case run_decoders s buf of
           (s, Inl e) \<Rightarrow> (s, Some e)
         | (s, Inr decoded_data) \<Rightarrow> dispatch X (subscriptions s) decoded_data s)"

definition process_msg :: "'cb callbacks \<Rightarrow> 'cb manager \<Rightarrow> ws_msg
                            \<Rightarrow> 'cb manager \<times> py_error option" where
  \<comment> \<open>The second component is the exception that leaves \<^verbatim>\<open>_process_msg\<close>. When the
      message is not binary, \<^verbatim>\<open>decoded_data\<close> is unbound at line 200.\<close>
  "process_msg X s msg =
     (case msg_data msg of
        None \<Rightarrow> (s, None)
      | Some data \<Rightarrow>
          if msg_type msg = BINARY then
            (case data of
               Object \<Rightarrow> (s, Some TypeError)
             | Text t \<Rightarrow> (emit (Log_error Invalid_data) s, None)
             | Bytes d \<Rightarrow>
                 if structurally_invalid d then (emit (Log_error Invalid_data) s, None)
                 else process_frame X s d)
          else if subscriptions s = [] then (s, None)
          else (s, Some UnboundLocalError))"

subsection \<open>The connection loop (lines 61-113)\<close>

text \<open>
  The transport's answers are the input. \<open>connect_result\<close> is what \<^verbatim>\<open>ws_connect\<close>
  does; a \<open>recv_event\<close> is what one \<^verbatim>\<open>receive\<close> with its 30 second limit does, a
  timeout carrying what the ping that may follow it does. The loop runs on a list of
  such events and is \<open>Suspended\<close> in \<^verbatim>\<open>receive\<close> when the list ends. No other
  task touches the manager while the loop is suspended, and closing the transport does
  not raise.
\<close>

datatype connect_result = Connected | Connect_failed

datatype ping_result = Pong | Ping_timeout | Ping_failed

datatype recv_event = Recv_timeout ping_result | Recv_msg ws_msg | Recv_failed

datatype outcome = Returned | Raised py_error | Suspended

fun receive_loop :: "'cb callbacks \<Rightarrow> 'cb manager \<Rightarrow> nat \<Rightarrow> recv_event list
                       \<Rightarrow> 'cb manager \<times> outcome" where
  "receive_loop X s k [] =
     (if state s \<noteq> Some STATE_RUNNING then (s, Returned) else (s, Suspended))"
| "receive_loop X s k (ev # evs) =
     (if state s \<noteq> Some STATE_RUNNING then (s, Returned)
      else case ev of
        Recv_failed \<Rightarrow> (s, Raised External_error)
      | Recv_timeout p \<Rightarrow>
          (let k = k + 1 in
           if k > 10 then
             (let s = (if show_connection_error s
                       then (emit (Log_error No_data_reconnecting) s)\<lparr>show_connection_error := False\<rparr>
                       else s)
              in (s\<lparr>is_running := False\<rparr>, Returned))
           else
             (let s = emit Ws_ping s in
              case p of
                Ping_failed \<Rightarrow> (s, Raised External_error)
              | Ping_timeout \<Rightarrow>
                  (let s = (if show_connection_error s
                            then (emit (Log_error No_response_to_ping) s)\<lparr>show_connection_error := False\<rparr>
                            else s)
                   in (s\<lparr>is_running := False\<rparr>, Returned))
              | Pong \<Rightarrow> receive_loop X s k evs))
      | Recv_msg msg \<Rightarrow>
          if msg_type msg \<in> set [CLOSED, ERROR] then (s, Returned)
          else
            (let s = s\<lparr>is_running := True\<rparr> in
             case process_msg X s msg of
               (s, Some e) \<Rightarrow> (s, Raised e)
             | (s, None) \<Rightarrow> receive_loop X (s\<lparr>show_connection_error := True\<rparr>) 0 evs))"

definition handlers :: "'cb manager \<times> outcome \<Rightarrow> 'cb manager \<times> outcome" where
  \<comment> \<open>\<^verbatim>\<open>except Exception\<close> and \<^verbatim>\<open>finally\<close> (lines 105-113); a suspended task has
      not reached them\<close>
  "handlers r =
     (case r of
        (s, Suspended) \<Rightarrow> (s, Suspended)
      | (s, out) \<Rightarrow>
          let s = (case out of Raised e \<Rightarrow> emit (Log_error (Unexpected_error e)) s | _ \<Rightarrow> s);
              s = close_websocket s
          in if state s \<noteq> Some STATE_STOPPED
             then (retry (s\<lparr>state := Some STATE_STOPPED\<rparr>), Returned)
             else (s, Returned))"

definition running :: "'cb callbacks \<Rightarrow> 'cb manager \<Rightarrow> connect_result \<Rightarrow> recv_event list
                         \<Rightarrow> 'cb manager \<times> outcome" where
  "running X s c evs =
     (let s = close_websocket s in
      handlers
        (case c of
           Connect_failed \<Rightarrow> (s, Raised External_error)
         | Connected \<Rightarrow>
             receive_loop X (s\<lparr>websocket := Some Handle, state := Some STATE_RUNNING\<rparr>) 0 evs))"

subsection \<open>Vocabulary for statements about the checksum\<close>

definition without_crc_log :: "'cb event list \<Rightarrow> 'cb event list" where
  \<comment> \<open>a trace without the checksum messages of line 187\<close>
  "without_crc_log tr =
     filter (\<lambda>e. case e of Log_error (Invalid_crc c stored) \<Rightarrow> False | _ \<Rightarrow> True) tr"


section \<open>Sample frames\<close>

text \<open>
  Payloads (frames without their delimiters) used as concrete inputs: a type 01 frame
  as a Kaifa meter sends it, a type 09 and a type 0E frame of the same layout, the first
  frame with month 0, the first frame with record type 0D, a frame cut after eight
  bytes, and the first frame with a wrong checksum. Each of the others ends in its
  CRC-16/X-25.
\<close>

definition framed :: "byte list \<Rightarrow> byte list" where
  \<comment> \<open>a payload between its two delimiters, as it arrives\<close>
  "framed p = FEND # p @ [FEND]"

abbreviation binary :: "byte list \<Rightarrow> ws_msg" where
  \<comment> \<open>the binary message that carries a byte string\<close>
  "binary raw \<equiv> \<lparr>msg_type = BINARY, msg_data = Some (Bytes raw)\<rparr>"

definition payload_01 :: "byte list" where
  "payload_01 =
         [0xA0, 0x27, 0x01, 0x02, 0x01, 0x10, 0x5A, 0x87, 0xE6, 0xE7, 0x00, 0x0F, 0x40,
          0x00, 0x00, 0x00, 0x09, 0x0C, 0x07, 0xE1, 0x09, 0x0E, 0x04, 0x13, 0x1F, 0x02,
          0xFF, 0x80, 0x00, 0x00, 0x02, 0x01, 0x06, 0x00, 0x00, 0x03, 0x98, 0xAB, 0xAD]"

definition payload_09 :: "byte list" where
  "payload_09 =
         [0xA0, 0x65, 0x01, 0x02, 0x01, 0x10, 0x5A, 0x87, 0xE6, 0xE7, 0x00, 0x0F, 0x40,
          0x00, 0x00, 0x00, 0x09, 0x0C, 0x07, 0xE3, 0x01, 0x01, 0x04, 0x0A, 0x00, 0x0A,
          0xFF, 0x80, 0x00, 0x00, 0x02, 0x09, 0x09, 0x07, 0x4B, 0x46, 0x4D, 0x5F, 0x30,
          0x30, 0x31, 0x09, 0x10, 0x36, 0x39, 0x37, 0x30, 0x36, 0x33, 0x31, 0x34, 0x30,
          0x31, 0x37, 0x35, 0x33, 0x39, 0x38, 0x35, 0x09, 0x08, 0x4D, 0x41, 0x31, 0x30,
          0x35, 0x48, 0x32, 0x45, 0x06, 0x00, 0x00, 0x04, 0xD2, 0x06, 0x00, 0x00, 0x00,
          0x00, 0x06, 0x00, 0x00, 0x00, 0x00, 0x06, 0x00, 0x00, 0x00, 0x96, 0x06, 0x00,
          0x00, 0x15, 0x22, 0x06, 0x00, 0x00, 0x09, 0x4C, 0xA5, 0xBE]"

definition payload_0E :: "byte list" where
  "payload_0E =
         [0xA0, 0x87, 0x01, 0x02, 0x01, 0x10, 0x5A, 0x87, 0xE6, 0xE7, 0x00, 0x0F, 0x40,
          0x00, 0x00, 0x00, 0x09, 0x0C, 0x07, 0xE3, 0x01, 0x01, 0x04, 0x0A, 0x00, 0x0A,
          0xFF, 0x80, 0x00, 0x00, 0x02, 0x0E, 0x09, 0x07, 0x4B, 0x46, 0x4D, 0x5F, 0x30,
          0x30, 0x31, 0x09, 0x10, 0x36, 0x39, 0x37, 0x30, 0x36, 0x33, 0x31, 0x34, 0x30,
          0x31, 0x37, 0x35, 0x33, 0x39, 0x38, 0x35, 0x09, 0x08, 0x4D, 0x41, 0x31, 0x30,
          0x35, 0x48, 0x32, 0x45, 0x06, 0x00, 0x00, 0x04, 0xD2, 0x06, 0x00, 0x00, 0x00,
          0x00, 0x06, 0x00, 0x00, 0x00, 0x00, 0x06, 0x00, 0x00, 0x00, 0x96, 0x06, 0x00,
          0x00, 0x15, 0x22, 0x06, 0x00, 0x00, 0x09, 0x4C, 0x09, 0x0C, 0x07, 0xE3, 0x01,
          0x01, 0x04, 0x0B, 0x00, 0x0A, 0xFF, 0x80, 0x00, 0x00, 0x06, 0x00, 0x0F, 0x42,
          0x40, 0x06, 0x00, 0x00, 0x00, 0x02, 0x06, 0x00, 0x00, 0x01, 0x2C, 0x06, 0x00,
          0x00, 0x9C, 0x40, 0x83, 0xA3]"

definition payload_month_0 :: "byte list" where
  "payload_month_0 =
         [0xA0, 0x27, 0x01, 0x02, 0x01, 0x10, 0x5A, 0x87, 0xE6, 0xE7, 0x00, 0x0F, 0x40,
          0x00, 0x00, 0x00, 0x09, 0x0C, 0x07, 0xE1, 0x00, 0x0E, 0x04, 0x13, 0x1F, 0x02,
          0xFF, 0x80, 0x00, 0x00, 0x02, 0x01, 0x06, 0x00, 0x00, 0x03, 0x98, 0xDC, 0x3D]"

definition payload_type_0D :: "byte list" where
  "payload_type_0D =
         [0xA0, 0x27, 0x01, 0x02, 0x01, 0x10, 0x5A, 0x87, 0xE6, 0xE7, 0x00, 0x0F, 0x40,
          0x00, 0x00, 0x00, 0x09, 0x0C, 0x07, 0xE1, 0x09, 0x0E, 0x04, 0x13, 0x1F, 0x02,
          0xFF, 0x80, 0x00, 0x00, 0x02, 0x0D, 0x06, 0x00, 0x00, 0x03, 0x98, 0x5F, 0x9C]"

definition payload_short :: "byte list" where
  "payload_short =
         [0xA0, 0x0A, 0x01, 0x02, 0x01, 0x10, 0x5A, 0x87, 0x8B, 0x42]"

definition payload_bad_crc :: "byte list" where
  \<comment> \<open>\<open>payload_01\<close> with one bit of its checksum flipped\<close>
  "payload_bad_crc =
         [0xA0, 0x27, 0x01, 0x02, 0x01, 0x10, 0x5A, 0x87, 0xE6, 0xE7, 0x00, 0x0F, 0x40,
          0x00, 0x00, 0x00, 0x09, 0x0C, 0x07, 0xE1, 0x09, 0x0E, 0x04, 0x13, 0x1F, 0x02,
          0xFF, 0x80, 0x00, 0x00, 0x02, 0x01, 0x06, 0x00, 0x00, 0x03, 0x98, 0xAB, 0xAC]"

section \<open>Lemmas about the hexadecimal buffer and the decoder\<close>

lemma hexbuf_Nil [simp]: "hexbuf [] = []"
  by (simp add: hexbuf_def)

lemma hexbuf_Cons: "hexbuf (x # xs) = format_02X x @ hexbuf xs"
  by (simp add: hexbuf_def)

lemma length_format_02X [simp]: "length (format_02X x) = 2"
  by (simp add: format_02X_def)

lemma length_hexbuf [simp]: "length (hexbuf d) = 2 * length d"
  by (induction d) (simp_all add: hexbuf_Cons)

lemma drop_hexbuf: "drop (2 * n) (hexbuf d) = hexbuf (drop n d)"
proof (induction n arbitrary: d)
  case 0
  then show ?case by simp
next
  case (Suc n)
  show ?case
  proof (cases d)
    case Nil
    then show ?thesis by simp
  next
    case (Cons x xs)
    then show ?thesis using Suc [of xs] by (simp add: hexbuf_Cons format_02X_def)
  qed
qed

lemma take_hexbuf: "take (2 * n) (hexbuf d) = hexbuf (take n d)"
proof (induction n arbitrary: d)
  case 0
  then show ?case by simp
next
  case (Suc n)
  show ?case
  proof (cases d)
    case Nil
    then show ?thesis by simp
  next
    case (Cons x xs)
    then show ?thesis using Suc [of xs] by (simp add: hexbuf_Cons format_02X_def)
  qed
qed

lemma drop_hexbuf_numeral [simp]:
  "drop (numeral (Num.Bit0 n)) (hexbuf d) = hexbuf (drop (numeral n) d)"
  using drop_hexbuf [of "numeral n" d] by (simp add: numeral_Bit0 mult_2)

lemma take_hexbuf_numeral [simp]:
  "take (numeral (Num.Bit0 n)) (hexbuf d) = hexbuf (take (numeral n) d)"
  using take_hexbuf [of "numeral n" d] by (simp add: numeral_Bit0 mult_2)

lemma hex_value_hex_digit: "n < 16 \<Longrightarrow> hex_value (hex_digit n) = Some (int n)"
proof -
  have "\<forall>k \<in> set [0..<16]. hex_value (hex_digit k) = Some (int k)"
    by (simp add: upt_rec hex_value_def hex_digit_def)
  moreover assume "n < 16"
  ultimately show ?thesis
    by simp
qed

lemma unat_byte_less: "unat (x :: byte) < 256"
  using unsigned_less [of x, where 'a = nat] by simp

lemma hex_digit_alphabet: "n < 16 \<Longrightarrow> hex_digit n \<in> set ''0123456789ABCDEF''"
  unfolding hex_digit_def by (rule nth_mem) simp

lemma hexbuf_alphabet: "set (hexbuf data) \<subseteq> set ''0123456789ABCDEF''"
proof (induction data)
  case Nil
  show ?case by (simp add: hexbuf_def)
next
  case (Cons x data)
  have "unat x < 256"
    by (rule unat_byte_less)
  then have hi: "unat x div 16 < 16" and lo: "unat x mod 16 < 16"
    by simp_all
  have "hex_digit (unat x div 16) \<in> set ''0123456789ABCDEF''"
    and "hex_digit (unat x mod 16) \<in> set ''0123456789ABCDEF''"
    by (rule hex_digit_alphabet [OF hi], rule hex_digit_alphabet [OF lo])
  then have "set (format_02X x) \<subseteq> set ''0123456789ABCDEF''"
    unfolding format_02X_def by (simp only: list.set insert_subset empty_subsetI)
  moreover have "hexbuf (x # data) = format_02X x @ hexbuf data"
    by (simp add: hexbuf_def)
  ultimately show ?case
    using Cons.IH by (simp only: set_append Un_subset_iff)
qed

lemma int16_digits_hexbuf:
  "int16_digits acc (hexbuf d) = Some (foldl (\<lambda>a b. a * 256 + uint b) acc d)"
proof (induction d arbitrary: acc)
  case Nil
  then show ?case by simp
next
  case (Cons x xs)
  have hi: "hex_value (hex_digit (unat x div 16)) = Some (int (unat x div 16))"
    using unat_byte_less [of x] by (intro hex_value_hex_digit) arith
  have lo: "hex_value (hex_digit (unat x mod 16)) = Some (int (unat x mod 16))"
    by (intro hex_value_hex_digit) simp
  have "int (unat x div 16) * 16 + int (unat x mod 16) = int (unat x)"
    by (metis div_mult_mod_eq of_nat_add of_nat_mult of_nat_numeral)
  then have eq: "(acc * 16 + int (unat x div 16)) * 16 + int (unat x mod 16) = acc * 256 + uint x"
    by (simp add: algebra_simps)
  have "int16_digits acc (hexbuf (x # xs))
        = int16_digits ((acc * 16 + int (unat x div 16)) * 16 + int (unat x mod 16)) (hexbuf xs)"
    by (simp add: hexbuf_Cons format_02X_def hi lo)
  also have "\<dots> = int16_digits (acc * 256 + uint x) (hexbuf xs)"
    by (simp only: eq)
  finally show ?case
    by (simp add: Cons)
qed

lemma hexbuf_eq_Nil [simp]: "hexbuf d = [] \<longleftrightarrow> d = []"
  using length_hexbuf [of d] by (metis length_0_conv mult_is_0 zero_neq_numeral hexbuf_Nil)

lemma py_int16_hexbuf:
  "py_int16 (hexbuf d) = (if d = [] then Inl ValueError else Inr (be_int d))"
  by (simp add: py_int16_def int16_digits_hexbuf be_int_def)


lemma decode_kaifa_SomeD:
  assumes "decode_kaifa buf = Inr (Some r)"
  shows "slice 10 12 buf = ''10''"
    and "\<exists>n. py_int16 (slice 2 4 buf) = Inr n \<and> n * 2 = int (length buf)"
    and "take 2 (drop 28 (drop 32 buf)) = ''02''"
    and "\<exists>ts. parse_time_stamp (drop 32 buf) = Inr ts
          \<and> decode_fields (drop 28 (drop 32 buf)) [(''time_stamp'', Py_datetime ts)] = Inr (Some r)"
  using assms
  by (auto simp: decode_kaifa_def decode_try_def bind_exc_def Let_def
           split: if_splits sum.splits)

lemma decode_fields_01:
  assumes "decode_fields txt res = Inr (Some r)" and "slice 2 4 txt = ''01''"
  shows "\<exists>n. py_int16 (slice 2 10 (drop 4 txt)) = Inr n \<and> r = setitem res ''Effect'' (Py_int n)"
  using assms
  by (auto simp: decode_fields_def bind_exc_def Let_def split: if_splits sum.splits)

lemma decode_identity_InrD:
  assumes "decode_identity txt res = Inr (txt', res')"
  shows "\<exists>v m t n. res' = setitem (setitem (setitem (setitem res ''Version identifier'' (Py_str v))
                      ''Meter-ID'' (Py_str m)) ''Meter type'' (Py_str t)) ''Effect'' (Py_int n)
          \<and> txt' = drop 20 (drop 36 (drop 18 txt))
          \<and> py_int16 (slice 2 10 txt') = Inr n"
  using assms
  by (auto simp: decode_identity_def bind_exc_def Let_def split: if_splits sum.splits)

lemma decode_cumulative_InrD:
  assumes "decode_cumulative txt res = Inr res'"
  shows "\<exists>a b c e.
          res' = setitem (setitem (setitem (setitem res
                   ''Cumulative_hourly_active_import_energy'' (Py_int a))
                   ''Cumulative_hourly_active_export_energy'' (Py_int b))
                   ''Cumulative_hourly_reactive_import_energy'' (Py_int c))
                   ''Cumulative_hourly_reactive_export_energy'' (Py_int e)
          \<and> py_int16 (slice 2 10 (drop 78 (drop 10 txt))) = Inr a
          \<and> py_int16 (slice 2 10 (drop 10 (drop 78 (drop 10 txt)))) = Inr b
          \<and> py_int16 (slice 2 10 (drop 10 (drop 10 (drop 78 (drop 10 txt))))) = Inr c
          \<and> py_int16 (slice 2 10 (drop 10 (drop 10 (drop 10 (drop 78 (drop 10 txt)))))) = Inr e"
  using assms
  by (auto simp: decode_cumulative_def bind_exc_def Let_def split: if_splits sum.splits)

lemma decode_fields_09:
  assumes "decode_fields txt res = Inr (Some r)" and "slice 2 4 txt = ''09''"
  shows "\<exists>txt'. decode_identity (drop 4 txt) res = Inr (txt', r)"
  using assms
  by (auto simp: decode_fields_def bind_exc_def Let_def split: if_splits sum.splits)

lemma decode_fields_0E:
  assumes "decode_fields txt res = Inr (Some r)" and "slice 2 4 txt = ''0E''"
  shows "\<exists>txt' res'. decode_identity (drop 4 txt) res = Inr (txt', res')
           \<and> decode_cumulative txt' res' = Inr r"
  using assms
  by (auto simp: decode_fields_def bind_exc_def Let_def split: if_splits sum.splits)

lemma decode_fields_tag:
  assumes "decode_fields txt res = Inr (Some r)"
  shows "slice 2 4 txt = ''01'' \<or> slice 2 4 txt = ''09'' \<or> slice 2 4 txt = ''0E''"
  using assms
  by (auto simp: decode_fields_def bind_exc_def Let_def split: if_splits sum.splits)


lemma py_int16_hexbuf_InrD: "py_int16 (hexbuf e) = Inr n \<Longrightarrow> n = be_int e \<and> e \<noteq> []"
  by (simp add: py_int16_hexbuf split: if_splits)

lemma slice_2_10_hexbuf: "slice 2 10 (hexbuf e) = hexbuf (take 4 (drop 1 e))"
  by (simp add: slice_def)

lemma int16_field:
  assumes "py_int16 (slice 2 10 x) = Inr n" and "x = drop (2 * k) (hexbuf d)"
  shows "n = be_int (take 4 (drop (Suc k) d))"
proof -
  have "slice 2 10 (drop (2 * k) (hexbuf d)) = hexbuf (take 4 (drop (Suc k) d))"
    by (simp only: drop_hexbuf slice_2_10_hexbuf drop_drop) simp
  with assms have "py_int16 (hexbuf (take 4 (drop (Suc k) d))) = Inr n"
    by (simp only:)
  then show ?thesis
    by (rule py_int16_hexbuf_InrD [THEN conjunct1])
qed

lemma kaifa_01:
  assumes "decode_kaifa (hexbuf d) = Inr (Some r)" and "pkt_type (hexbuf d) = ''01''"
  shows "\<exists>ts. r = [(''time_stamp'', Py_datetime ts), (''Effect'', Py_int (be_int (take 4 (drop 33 d))))]"
proof -
  let ?txt = "drop 28 (drop 32 (hexbuf d))"
  obtain ts where f: "decode_fields ?txt [(''time_stamp'', Py_datetime ts)] = Inr (Some r)"
    using decode_kaifa_SomeD(4) [OF assms(1)] by blast
  have t: "slice 2 4 ?txt = ''01''"
    using assms(2) by (simp only: pkt_type_def)
  obtain n where n: "py_int16 (slice 2 10 (drop 4 ?txt)) = Inr n"
    and r: "r = setitem [(''time_stamp'', Py_datetime ts)] ''Effect'' (Py_int n)"
    using decode_fields_01 [OF f t] by blast
  have o: "drop 4 ?txt = drop (2 * 32) (hexbuf d)"
    by simp
  have "n = be_int (take 4 (drop (Suc 32) d))"
    by (rule int16_field [OF n o])
  then have nv: "n = be_int (take 4 (drop 33 d))"
    by simp
  have "r = [(''time_stamp'', Py_datetime ts), (''Effect'', Py_int (be_int (take 4 (drop 33 d))))]"
    unfolding r nv by simp
  then show ?thesis by (intro exI) assumption
qed

lemma kaifa_09:
  assumes "decode_kaifa (hexbuf d) = Inr (Some r)" and "pkt_type (hexbuf d) = ''09''"
  shows "\<exists>ts v m ty. r = [(''time_stamp'', Py_datetime ts), (''Version identifier'', Py_str v),
            (''Meter-ID'', Py_str m), (''Meter type'', Py_str ty),
            (''Effect'', Py_int (be_int (take 4 (drop 70 d))))]"
proof -
  let ?txt = "drop 28 (drop 32 (hexbuf d))"
  obtain ts where f: "decode_fields ?txt [(''time_stamp'', Py_datetime ts)] = Inr (Some r)"
    using decode_kaifa_SomeD(4) [OF assms(1)] by blast
  have t: "slice 2 4 ?txt = ''09''"
    using assms(2) by (simp only: pkt_type_def)
  obtain txt' where i: "decode_identity (drop 4 ?txt) [(''time_stamp'', Py_datetime ts)] = Inr (txt', r)"
    using decode_fields_09 [OF f t] by blast
  obtain v m ty n where r: "r = setitem (setitem (setitem (setitem [(''time_stamp'', Py_datetime ts)]
                    ''Version identifier'' (Py_str v))
                    ''Meter-ID'' (Py_str m)) ''Meter type'' (Py_str ty)) ''Effect'' (Py_int n)"
    and txt': "txt' = drop 20 (drop 36 (drop 18 (drop 4 ?txt)))"
    and n: "py_int16 (slice 2 10 txt') = Inr n"
    using decode_identity_InrD [OF i] by blast
  have o: "txt' = drop (2 * 69) (hexbuf d)"
    unfolding txt' by simp
  have "n = be_int (take 4 (drop (Suc 69) d))"
    by (rule int16_field [OF n o])
  then have nv: "n = be_int (take 4 (drop 70 d))"
    by simp
  have "r = [(''time_stamp'', Py_datetime ts), (''Version identifier'', Py_str v),
            (''Meter-ID'', Py_str m), (''Meter type'', Py_str ty),
            (''Effect'', Py_int (be_int (take 4 (drop 70 d))))]"
    unfolding r nv by simp
  then show ?thesis by (intro exI) assumption
qed

lemma kaifa_0E:
  assumes "decode_kaifa (hexbuf d) = Inr (Some r)" and "pkt_type (hexbuf d) = ''0E''"
  shows "\<exists>ts v m ty. r = [(''time_stamp'', Py_datetime ts), (''Version identifier'', Py_str v),
            (''Meter-ID'', Py_str m), (''Meter type'', Py_str ty),
            (''Effect'', Py_int (be_int (take 4 (drop 70 d)))),
            (''Cumulative_hourly_active_import_energy'', Py_int (be_int (take 4 (drop 114 d)))),
            (''Cumulative_hourly_active_export_energy'', Py_int (be_int (take 4 (drop 119 d)))),
            (''Cumulative_hourly_reactive_import_energy'', Py_int (be_int (take 4 (drop 124 d)))),
            (''Cumulative_hourly_reactive_export_energy'', Py_int (be_int (take 4 (drop 129 d))))]"
proof -
  let ?txt = "drop 28 (drop 32 (hexbuf d))"
  obtain ts where f: "decode_fields ?txt [(''time_stamp'', Py_datetime ts)] = Inr (Some r)"
    using decode_kaifa_SomeD(4) [OF assms(1)] by blast
  have t: "slice 2 4 ?txt = ''0E''"
    using assms(2) by (simp only: pkt_type_def)
  obtain txt' res' where i: "decode_identity (drop 4 ?txt) [(''time_stamp'', Py_datetime ts)] = Inr (txt', res')"
    and c: "decode_cumulative txt' res' = Inr r"
    using decode_fields_0E [OF f t] by blast
  obtain v m ty n where res': "res' = setitem (setitem (setitem (setitem [(''time_stamp'', Py_datetime ts)]
                    ''Version identifier'' (Py_str v))
                    ''Meter-ID'' (Py_str m)) ''Meter type'' (Py_str ty)) ''Effect'' (Py_int n)"
    and txt': "txt' = drop 20 (drop 36 (drop 18 (drop 4 ?txt)))"
    and n: "py_int16 (slice 2 10 txt') = Inr n"
    using decode_identity_InrD [OF i] by blast
  obtain a b c' e where r: "r = setitem (setitem (setitem (setitem res'
                 ''Cumulative_hourly_active_import_energy'' (Py_int a))
                 ''Cumulative_hourly_active_export_energy'' (Py_int b))
                 ''Cumulative_hourly_reactive_import_energy'' (Py_int c'))
                 ''Cumulative_hourly_reactive_export_energy'' (Py_int e)"
    and a: "py_int16 (slice 2 10 (drop 78 (drop 10 txt'))) = Inr a"
    and b: "py_int16 (slice 2 10 (drop 10 (drop 78 (drop 10 txt')))) = Inr b"
    and c': "py_int16 (slice 2 10 (drop 10 (drop 10 (drop 78 (drop 10 txt'))))) = Inr c'"
    and e: "py_int16 (slice 2 10 (drop 10 (drop 10 (drop 10 (drop 78 (drop 10 txt')))))) = Inr e"
    using decode_cumulative_InrD [OF c] by blast
  have o0: "txt' = drop (2 * 69) (hexbuf d)"
    unfolding txt' by simp
  have o1: "drop 78 (drop 10 txt') = drop (2 * 113) (hexbuf d)"
    unfolding txt' by simp
  have o2: "drop 10 (drop 78 (drop 10 txt')) = drop (2 * 118) (hexbuf d)"
    unfolding txt' by simp
  have o3: "drop 10 (drop 10 (drop 78 (drop 10 txt'))) = drop (2 * 123) (hexbuf d)"
    unfolding txt' by simp
  have o4: "drop 10 (drop 10 (drop 10 (drop 78 (drop 10 txt')))) = drop (2 * 128) (hexbuf d)"
    unfolding txt' by simp
  have "n = be_int (take 4 (drop (Suc 69) d))" "a = be_int (take 4 (drop (Suc 113) d))"
    "b = be_int (take 4 (drop (Suc 118) d))" "c' = be_int (take 4 (drop (Suc 123) d))"
    "e = be_int (take 4 (drop (Suc 128) d))"
    by (rule int16_field [OF n o0], rule int16_field [OF a o1], rule int16_field [OF b o2],
        rule int16_field [OF c' o3], rule int16_field [OF e o4])
  then have vals: "n = be_int (take 4 (drop 70 d))" "a = be_int (take 4 (drop 114 d))"
    "b = be_int (take 4 (drop 119 d))" "c' = be_int (take 4 (drop 124 d))"
    "e = be_int (take 4 (drop 129 d))"
    by simp_all
  have "r = [(''time_stamp'', Py_datetime ts), (''Version identifier'', Py_str v),
            (''Meter-ID'', Py_str m), (''Meter type'', Py_str ty),
            (''Effect'', Py_int (be_int (take 4 (drop 70 d)))),
            (''Cumulative_hourly_active_import_energy'', Py_int (be_int (take 4 (drop 114 d)))),
            (''Cumulative_hourly_active_export_energy'', Py_int (be_int (take 4 (drop 119 d)))),
            (''Cumulative_hourly_reactive_import_energy'', Py_int (be_int (take 4 (drop 124 d)))),
            (''Cumulative_hourly_reactive_export_energy'', Py_int (be_int (take 4 (drop 129 d))))]"
    unfolding r res' vals by simp
  then show ?thesis by (intro exI) assumption
qed

lemma kaifa_tag:
  assumes "decode_kaifa (hexbuf d) = Inr (Some r)"
  shows "pkt_type (hexbuf d) = ''01'' \<or> pkt_type (hexbuf d) = ''09'' \<or> pkt_type (hexbuf d) = ''0E''"
proof -
  obtain ts where f: "decode_fields (drop 28 (drop 32 (hexbuf d))) [(''time_stamp'', Py_datetime ts)] = Inr (Some r)"
    using decode_kaifa_SomeD(4) [OF assms(1)] by blast
  show ?thesis
    using decode_fields_tag [OF f] by (simp only: pkt_type_def)
qed

lemma py_int16_Inl: "py_int16 s = Inl e \<Longrightarrow> e = ValueError"
  by (auto simp: py_int16_def split: if_splits option.splits)

lemma b16decode_utf8_Inl: "b16decode_utf8 s = Inl e \<Longrightarrow> e = ValueError"
  by (auto simp: b16decode_utf8_def split: option.splits)

lemma make_datetime_Inl: "make_datetime y m d H M S = Inl e \<Longrightarrow> e = ValueError"
  by (auto simp: make_datetime_def split: if_splits)

lemma strptime_Inl: "strptime s f = Inl e \<Longrightarrow> e = ValueError"
  by (auto simp: strptime_def split: list.splits if_splits dest: make_datetime_Inl)

lemma bind_exc_Inl:
  "bind_exc r f = Inl e \<Longrightarrow> r = Inl e \<or> (\<exists>x. r = Inr x \<and> f x = Inl e)"
  by (cases r) (simp_all add: bind_exc_def)

lemma parse_time_stamp_Inl: "parse_time_stamp buf = Inl e \<Longrightarrow> e = ValueError"
  unfolding parse_time_stamp_def
  by (auto dest!: bind_exc_Inl dest: py_int16_Inl strptime_Inl)

lemma decode_identity_Inl: "decode_identity txt res = Inl e \<Longrightarrow> e = ValueError"
  unfolding decode_identity_def Let_def
  by (auto dest!: bind_exc_Inl dest: py_int16_Inl b16decode_utf8_Inl)

lemma decode_cumulative_Inl: "decode_cumulative txt res = Inl e \<Longrightarrow> e = ValueError"
  unfolding decode_cumulative_def Let_def
  by (auto dest!: bind_exc_Inl dest: py_int16_Inl)

lemma decode_fields_Inl: "decode_fields txt res = Inl e \<Longrightarrow> e = ValueError"
  unfolding decode_fields_def Let_def
  by (auto dest!: bind_exc_Inl dest: py_int16_Inl decode_identity_Inl decode_cumulative_Inl
           split: if_splits)

lemma decode_try_Inl:
  "decode_try buf = Inl e \<Longrightarrow> e = ValueError \<or> (e = IndexError \<and> buf = [])"
  unfolding decode_try_def Let_def
  by (auto dest!: bind_exc_Inl dest: parse_time_stamp_Inl decode_fields_Inl split: if_splits)

lemma decode_try_Nil: "decode_try [] = Inl IndexError"
  by (simp add: decode_try_def)

subsection \<open>The decoder on a buffer of line 189\<close>

lemma b16_value_hex_digit: "n < 16 \<Longrightarrow> b16_value (hex_digit n) = Some n"
proof -
  have "\<forall>k \<in> set [0..<16]. b16_value (hex_digit k) = Some k"
    by (simp add: upt_rec b16_value_def hex_digit_def)
  moreover assume "n < 16"
  ultimately show ?thesis
    by simp
qed

lemma unhexlify_hexbuf: "unhexlify (hexbuf d) = Some (map unat d)"
proof (induction d)
  case Nil
  show ?case by simp
next
  case (Cons x xs)
  have hi: "b16_value (hex_digit (unat x div 16)) = Some (unat x div 16)"
    using unat_byte_less [of x] by (intro b16_value_hex_digit) arith
  have lo: "b16_value (hex_digit (unat x mod 16)) = Some (unat x mod 16)"
    by (intro b16_value_hex_digit) simp
  show ?case
    by (simp add: hexbuf_Cons format_02X_def hi lo Cons)
qed

lemma b16decode_utf8_hexbuf:
  "b16decode_utf8 (hexbuf e)
   = (case utf8_decode (map unat e) of None \<Rightarrow> Inl ValueError | Some cps \<Rightarrow> Inr cps)"
  by (simp add: b16decode_utf8_def unhexlify_hexbuf)

lemma int16_at:
  "py_int16 (slice 2 10 (hexbuf (drop k d)))
   = (if length d \<le> Suc k then Inl ValueError else Inr (be_int (take 4 (drop (Suc k) d))))"
  by (simp add: slice_2_10_hexbuf py_int16_hexbuf)

lemma text_at_7: "b16decode_utf8 (slice 4 18 (hexbuf (drop k d)))
   = (case text_field (k + 2) 7 d of None \<Rightarrow> Inl ValueError | Some cps \<Rightarrow> Inr cps)"
  by (simp add: slice_def b16decode_utf8_hexbuf text_field_def add.commute)

lemma text_at_16: "b16decode_utf8 (slice 4 36 (hexbuf (drop k d)))
   = (case text_field (k + 2) 16 d of None \<Rightarrow> Inl ValueError | Some cps \<Rightarrow> Inr cps)"
  by (simp add: slice_def b16decode_utf8_hexbuf text_field_def add.commute)

lemma text_at_8: "b16decode_utf8 (slice 4 20 (hexbuf (drop k d)))
   = (case text_field (k + 2) 8 d of None \<Rightarrow> Inl ValueError | Some cps \<Rightarrow> Inr cps)"
  by (simp add: slice_def b16decode_utf8_hexbuf text_field_def add.commute)


lemma decode_identity_hexbuf:
  "decode_identity (hexbuf (drop 32 d)) res =
     (case text_field 34 7 d of None \<Rightarrow> Inl ValueError | Some v \<Rightarrow>
      (case text_field 43 16 d of None \<Rightarrow> Inl ValueError | Some m \<Rightarrow>
      (case text_field 61 8 d of None \<Rightarrow> Inl ValueError | Some ty \<Rightarrow>
         if length d \<le> 70 then Inl ValueError
         else Inr (hexbuf (drop 69 d),
                setitem (setitem (setitem (setitem res ''Version identifier'' (Py_str v))
                  ''Meter-ID'' (Py_str m)) ''Meter type'' (Py_str ty))
                  ''Effect'' (Py_int (be_int (take 4 (drop 70 d))))))))"
  by (simp add: decode_identity_def Let_def bind_exc_def text_at_7 text_at_16 text_at_8 int16_at
           split: option.splits)

lemma decode_cumulative_hexbuf:
  "decode_cumulative (hexbuf (drop 69 d)) res =
     (if length d \<le> 129 then Inl ValueError
      else Inr (setitem (setitem (setitem (setitem res
             ''Cumulative_hourly_active_import_energy'' (Py_int (be_int (take 4 (drop 114 d)))))
             ''Cumulative_hourly_active_export_energy'' (Py_int (be_int (take 4 (drop 119 d)))))
             ''Cumulative_hourly_reactive_import_energy'' (Py_int (be_int (take 4 (drop 124 d)))))
             ''Cumulative_hourly_reactive_export_energy'' (Py_int (be_int (take 4 (drop 129 d))))))"
  by (simp add: decode_cumulative_def Let_def bind_exc_def int16_at)

lemma pkt_type_hexbuf: "pkt_type (hexbuf d) = slice 2 4 (hexbuf (drop 30 d))"
  by (simp add: pkt_type_def)

lemma decode_fields_hexbuf_01:
  assumes "pkt_type (hexbuf d) = ''01''"
  shows "decode_fields (hexbuf (drop 30 d)) res =
           (if length d \<le> 33 then Inl ValueError
            else Inr (Some (setitem res ''Effect'' (Py_int (be_int (take 4 (drop 33 d)))))))"
  using assms
  by (simp add: pkt_type_hexbuf decode_fields_def Let_def bind_exc_def int16_at)

lemma decode_fields_hexbuf_09:
  assumes "pkt_type (hexbuf d) = ''09''"
  shows "decode_fields (hexbuf (drop 30 d)) res =
           (case decode_identity (hexbuf (drop 32 d)) res of
              Inl e \<Rightarrow> Inl e | Inr (t, r) \<Rightarrow> Inr (Some r))"
  using assms
  by (simp add: pkt_type_hexbuf decode_fields_def Let_def bind_exc_def split: sum.splits)

lemma decode_fields_hexbuf_0E:
  assumes "pkt_type (hexbuf d) = ''0E''"
  shows "decode_fields (hexbuf (drop 30 d)) res =
           (case decode_identity (hexbuf (drop 32 d)) res of
              Inl e \<Rightarrow> Inl e
            | Inr (t, r) \<Rightarrow> (case decode_cumulative t r of Inl e \<Rightarrow> Inl e | Inr r' \<Rightarrow> Inr (Some r')))"
  using assms
  by (simp add: pkt_type_hexbuf decode_fields_def Let_def bind_exc_def split: sum.splits)

lemma decode_fields_full_09:
  assumes "pkt_type (hexbuf d) = ''09''"
  shows "decode_fields (hexbuf (drop 30 d)) res =
     (case text_field 34 7 d of None \<Rightarrow> Inl ValueError | Some v \<Rightarrow>
      (case text_field 43 16 d of None \<Rightarrow> Inl ValueError | Some m \<Rightarrow>
      (case text_field 61 8 d of None \<Rightarrow> Inl ValueError | Some ty \<Rightarrow>
         if length d \<le> 70 then Inl ValueError
         else Inr (Some
                (setitem (setitem (setitem (setitem res ''Version identifier'' (Py_str v))
                  ''Meter-ID'' (Py_str m)) ''Meter type'' (Py_str ty))
                  ''Effect'' (Py_int (be_int (take 4 (drop 70 d)))))))))"
  by (simp add: decode_fields_hexbuf_09 [OF assms] decode_identity_hexbuf split: option.splits)

lemma decode_fields_full_0E:
  assumes "pkt_type (hexbuf d) = ''0E''"
  shows "decode_fields (hexbuf (drop 30 d)) res =
     (case text_field 34 7 d of None \<Rightarrow> Inl ValueError | Some v \<Rightarrow>
      (case text_field 43 16 d of None \<Rightarrow> Inl ValueError | Some m \<Rightarrow>
      (case text_field 61 8 d of None \<Rightarrow> Inl ValueError | Some ty \<Rightarrow>
         if length d \<le> 129 then Inl ValueError
         else Inr (Some
                (setitem (setitem (setitem (setitem
                (setitem (setitem (setitem (setitem res ''Version identifier'' (Py_str v))
                  ''Meter-ID'' (Py_str m)) ''Meter type'' (Py_str ty))
                  ''Effect'' (Py_int (be_int (take 4 (drop 70 d)))))
                  ''Cumulative_hourly_active_import_energy'' (Py_int (be_int (take 4 (drop 114 d)))))
                  ''Cumulative_hourly_active_export_energy'' (Py_int (be_int (take 4 (drop 119 d)))))
                  ''Cumulative_hourly_reactive_import_energy'' (Py_int (be_int (take 4 (drop 124 d)))))
                  ''Cumulative_hourly_reactive_export_energy'' (Py_int (be_int (take 4 (drop 129 d)))))))))"
  by (simp add: decode_fields_hexbuf_0E [OF assms] decode_identity_hexbuf decode_cumulative_hexbuf
           split: option.splits)

lemma decode_kaifa_validated:
  assumes "validations_pass (hexbuf d)"
  shows "decode_kaifa (hexbuf d) =
           (case parse_time_stamp (drop 32 (hexbuf d)) of
              Inl e \<Rightarrow> Inr None
            | Inr ts \<Rightarrow>
                (case decode_fields (hexbuf (drop 30 d)) [(''time_stamp'', Py_datetime ts)] of
                   Inl e \<Rightarrow> Inr None | Inr r \<Rightarrow> Inr r))"
proof -
  from assms have c: "slice 10 12 (hexbuf d) = ''10''"
    and t: "take 2 (drop 28 (drop 32 (hexbuf d))) = ''02''"
    by (simp_all add: validations_pass_def)
  from assms obtain n where n: "py_int16 (slice 2 4 (hexbuf d)) = Inr n"
    and l: "n * 2 = int (length (hexbuf d))"
    by (auto simp: validations_pass_def split: sum.splits)
  have k: "decode_kaifa (hexbuf d) =
             (case decode_try (drop 32 (hexbuf d)) of
                Inl e \<Rightarrow> (if e = ValueError then Inr None else Inl e) | Inr r \<Rightarrow> Inr r)"
    using c n l by (simp add: decode_kaifa_def bind_exc_def)
  have tr: "decode_try (drop 32 (hexbuf d)) =
          bind_exc (parse_time_stamp (drop 32 (hexbuf d))) (\<lambda>ts.
            decode_fields (drop 28 (drop 32 (hexbuf d))) [(''time_stamp'', Py_datetime ts)])"
    using t by (simp add: decode_try_def Let_def)
  have o: "drop 28 (drop 32 (hexbuf d)) = hexbuf (drop 30 d)"
    by simp
  show ?thesis
  proof (cases "parse_time_stamp (drop 32 (hexbuf d))")
    case (Inl e)
    then have "e = ValueError" by (rule parse_time_stamp_Inl)
    then show ?thesis
      unfolding k tr using Inl by (simp add: bind_exc_def)
  next
    case (Inr ts)
    show ?thesis
    proof (cases "decode_fields (hexbuf (drop 30 d)) [(''time_stamp'', Py_datetime ts)]")
      case (Inl e)
      then have "e = ValueError" by (rule decode_fields_Inl)
      then show ?thesis
        unfolding k tr o using Inr Inl by (simp add: bind_exc_def)
    next
      case 2: (Inr r)
      show ?thesis
        unfolding k tr o using Inr 2 by (simp add: bind_exc_def)
    qed
  qed
qed

subsection \<open>Time stamps that \<^verbatim>\<open>strptime\<close> accepts\<close>

lemma dec_digits_1: "k < 10 \<Longrightarrow> dec_digits k = [''0123456789'' ! k]"
  by (subst dec_digits.simps) simp

lemma dec_digits_2:
  "10 \<le> k \<Longrightarrow> k < 100 \<Longrightarrow> dec_digits k = [''0123456789'' ! (k div 10), ''0123456789'' ! (k mod 10)]"
  by (subst dec_digits.simps) (simp add: dec_digits_1)

lemma dec_digits_3:
  "100 \<le> k \<Longrightarrow> k < 1000 \<Longrightarrow>
   dec_digits k = [''0123456789'' ! (k div 100), ''0123456789'' ! (k div 10 mod 10),
                   ''0123456789'' ! (k mod 10)]"
  by (subst dec_digits.simps) (simp add: dec_digits_2 div_mult2_eq [symmetric])

lemma dec_digits_4:
  "1000 \<le> k \<Longrightarrow> k < 10000 \<Longrightarrow>
   dec_digits k = [''0123456789'' ! (k div 1000), ''0123456789'' ! (k div 100 mod 10),
                   ''0123456789'' ! (k div 10 mod 10), ''0123456789'' ! (k mod 10)]"
  by (subst dec_digits.simps) (simp add: dec_digits_3 div_mult2_eq [symmetric])

lemma format_02d_2:
  "k < 100 \<Longrightarrow> format_02d (int k) = [''0123456789'' ! (k div 10), ''0123456789'' ! (k mod 10)]"
  by (cases "k < 10") (simp_all add: format_02d_def dec_digits_1 dec_digits_2)

lemma format_02d_4:
  "1000 \<le> k \<Longrightarrow> k < 10000 \<Longrightarrow>
   format_02d (int k) = [''0123456789'' ! (k div 1000), ''0123456789'' ! (k div 100 mod 10),
                         ''0123456789'' ! (k div 10 mod 10), ''0123456789'' ! (k mod 10)]"
  by (simp add: format_02d_def dec_digits_4)


lemma directive_S:
  assumes "k < 60"
  shows "(case List.map_filter (\<lambda>alt. match_alt alt
                 (''0123456789'' ! (k div 10) # ''0123456789'' ! (k mod 10) # rest))
               (directive (CHR ''S'')) of
            [] \<Rightarrow> False
          | x # others \<Rightarrow> x = ([''0123456789'' ! (k div 10), ''0123456789'' ! (k mod 10)], rest))
         \<and> dec_value [''0123456789'' ! (k div 10), ''0123456789'' ! (k mod 10)] = int k"
proof -
  have "\<forall>j \<in> set [0..<60].
          (case List.map_filter (\<lambda>alt. match_alt alt
                 (''0123456789'' ! (j div 10) # ''0123456789'' ! (j mod 10) # rest))
               (directive (CHR ''S'')) of
            [] \<Rightarrow> False
          | x # others \<Rightarrow> x = ([''0123456789'' ! (j div 10), ''0123456789'' ! (j mod 10)], rest))
         \<and> dec_value [''0123456789'' ! (j div 10), ''0123456789'' ! (j mod 10)] = int j"
    by (simp add: upt_rec directive_def digit_def List.map_filter_def dec_value_def)
  then show ?thesis
    using assms by simp
qed

lemma directive_M:
  assumes "k < 60"
  shows "(case List.map_filter (\<lambda>alt. match_alt alt
                 (''0123456789'' ! (k div 10) # ''0123456789'' ! (k mod 10) # rest))
               (directive (CHR ''M'')) of
            [] \<Rightarrow> False
          | x # others \<Rightarrow> x = ([''0123456789'' ! (k div 10), ''0123456789'' ! (k mod 10)], rest))
         \<and> dec_value [''0123456789'' ! (k div 10), ''0123456789'' ! (k mod 10)] = int k"
proof -
  have "\<forall>j \<in> set [0..<60].
          (case List.map_filter (\<lambda>alt. match_alt alt
                 (''0123456789'' ! (j div 10) # ''0123456789'' ! (j mod 10) # rest))
               (directive (CHR ''M'')) of
            [] \<Rightarrow> False
          | x # others \<Rightarrow> x = ([''0123456789'' ! (j div 10), ''0123456789'' ! (j mod 10)], rest))
         \<and> dec_value [''0123456789'' ! (j div 10), ''0123456789'' ! (j mod 10)] = int j"
    by (simp add: upt_rec directive_def digit_def List.map_filter_def dec_value_def)
  then show ?thesis
    using assms by simp
qed

lemma directive_H:
  assumes "k < 24"
  shows "(case List.map_filter (\<lambda>alt. match_alt alt
                 (''0123456789'' ! (k div 10) # ''0123456789'' ! (k mod 10) # rest))
               (directive (CHR ''H'')) of
            [] \<Rightarrow> False
          | x # others \<Rightarrow> x = ([''0123456789'' ! (k div 10), ''0123456789'' ! (k mod 10)], rest))
         \<and> dec_value [''0123456789'' ! (k div 10), ''0123456789'' ! (k mod 10)] = int k"
proof -
  have "\<forall>j \<in> set [0..<24].
          (case List.map_filter (\<lambda>alt. match_alt alt
                 (''0123456789'' ! (j div 10) # ''0123456789'' ! (j mod 10) # rest))
               (directive (CHR ''H'')) of
            [] \<Rightarrow> False
          | x # others \<Rightarrow> x = ([''0123456789'' ! (j div 10), ''0123456789'' ! (j mod 10)], rest))
         \<and> dec_value [''0123456789'' ! (j div 10), ''0123456789'' ! (j mod 10)] = int j"
    by (simp add: upt_rec directive_def digit_def List.map_filter_def dec_value_def)
  then show ?thesis
    using assms by simp
qed

lemma directive_d:
  assumes "1 \<le> k" and "k < 32"
  shows "(case List.map_filter (\<lambda>alt. match_alt alt
                 (''0123456789'' ! (k div 10) # ''0123456789'' ! (k mod 10) # rest))
               (directive (CHR ''d'')) of
            [] \<Rightarrow> False
          | x # others \<Rightarrow> x = ([''0123456789'' ! (k div 10), ''0123456789'' ! (k mod 10)], rest))
         \<and> dec_value [''0123456789'' ! (k div 10), ''0123456789'' ! (k mod 10)] = int k"
proof -
  have "\<forall>j \<in> set [1..<32].
          (case List.map_filter (\<lambda>alt. match_alt alt
                 (''0123456789'' ! (j div 10) # ''0123456789'' ! (j mod 10) # rest))
               (directive (CHR ''d'')) of
            [] \<Rightarrow> False
          | x # others \<Rightarrow> x = ([''0123456789'' ! (j div 10), ''0123456789'' ! (j mod 10)], rest))
         \<and> dec_value [''0123456789'' ! (j div 10), ''0123456789'' ! (j mod 10)] = int j"
    by (simp add: upt_rec directive_def digit_def List.map_filter_def dec_value_def)
  then show ?thesis
    using assms by simp
qed

lemma directive_m:
  assumes "1 \<le> k" and "k < 13"
  shows "(case List.map_filter (\<lambda>alt. match_alt alt
                 (''0123456789'' ! (k div 10) # ''0123456789'' ! (k mod 10) # rest))
               (directive (CHR ''m'')) of
            [] \<Rightarrow> False
          | x # others \<Rightarrow> x = ([''0123456789'' ! (k div 10), ''0123456789'' ! (k mod 10)], rest))
         \<and> dec_value [''0123456789'' ! (k div 10), ''0123456789'' ! (k mod 10)] = int k"
proof -
  have "\<forall>j \<in> set [1..<13].
          (case List.map_filter (\<lambda>alt. match_alt alt
                 (''0123456789'' ! (j div 10) # ''0123456789'' ! (j mod 10) # rest))
               (directive (CHR ''m'')) of
            [] \<Rightarrow> False
          | x # others \<Rightarrow> x = ([''0123456789'' ! (j div 10), ''0123456789'' ! (j mod 10)], rest))
         \<and> dec_value [''0123456789'' ! (j div 10), ''0123456789'' ! (j mod 10)] = int j"
    by (simp add: upt_rec directive_def digit_def List.map_filter_def dec_value_def)
  then show ?thesis
    using assms by simp
qed


lemma digit_char: "a < 10 \<Longrightarrow> ''0123456789'' ! a \<in> set digit"
  unfolding digit_def by (rule nth_mem) simp

lemma digit_char_value: "a < 10 \<Longrightarrow> int (of_char (''0123456789'' ! a)) - 48 = int a"
proof -
  have "\<forall>j \<in> set [0..<10]. int (of_char (''0123456789'' ! j)) - 48 = int j"
    by (simp add: upt_rec)
  moreover assume "a < 10"
  ultimately show ?thesis by simp
qed

lemma digit_char_not_blank: "a < 10 \<Longrightarrow> ''0123456789'' ! a \<noteq> CHR '' ''"
proof -
  have "\<forall>j \<in> set [0..<10]. ''0123456789'' ! j \<noteq> CHR '' ''"
    by (simp add: upt_rec)
  moreover assume "a < 10"
  ultimately show ?thesis by simp
qed


lemma year_digits:
  "int (k div 1000) * 1000 + int (k div 100 mod 10) * 100 + int (k div 10 mod 10) * 10 + int (k mod 10)
   = int (k :: nat)"
proof -
  have h: "k div 100 = k div 10 div 10"
    using div_mult2_eq [of k 10 10] by simp
  have i: "k div 1000 = k div 100 div 10"
    using div_mult2_eq [of k 100 10] by simp
  have a: "k = (k div 10) * 10 + k mod 10"
    by simp
  have b: "k div 10 = (k div 100) * 10 + k div 10 mod 10"
    unfolding h by simp
  have c: "k div 100 = (k div 1000) * 10 + k div 100 mod 10"
    unfolding i by simp
  have "k = (k div 1000) * 1000 + (k div 100 mod 10) * 100 + (k div 10 mod 10) * 10 + k mod 10"
    using a b c by linarith
  then have "int k = int ((k div 1000) * 1000 + (k div 100 mod 10) * 100 + (k div 10 mod 10) * 10 + k mod 10)"
    by (rule arg_cong)
  then show ?thesis
    by simp
qed

lemma directive_Y_chars:
  assumes "a < 10" "b < 10" "c < 10" "e < 10"
  shows "List.map_filter (\<lambda>alt. match_alt alt
            [''0123456789'' ! a, ''0123456789'' ! b, ''0123456789'' ! c, ''0123456789'' ! e])
           (directive (CHR ''Y''))
         = [([''0123456789'' ! a, ''0123456789'' ! b, ''0123456789'' ! c, ''0123456789'' ! e], [])]"
proof -
  have d: "''0123456789'' ! a \<in> set digit" "''0123456789'' ! b \<in> set digit"
    "''0123456789'' ! c \<in> set digit" "''0123456789'' ! e \<in> set digit"
    using assms by (simp_all only: digit_char)
  have "match_alt [digit, digit, digit, digit]
          [''0123456789'' ! a, ''0123456789'' ! b, ''0123456789'' ! c, ''0123456789'' ! e]
        = Some ([''0123456789'' ! a, ''0123456789'' ! b, ''0123456789'' ! c, ''0123456789'' ! e], [])"
    by (simp only: match_alt.simps d if_True option.case prod.case)
  then show ?thesis
    by (simp only: directive_def List.map_filter_def) simp
qed

lemma match_seq_Directive:
  assumes "case List.map_filter (\<lambda>alt. match_alt alt s) (directive c) of
             [] \<Rightarrow> False | x # others \<Rightarrow> x = (m, rest)"
      and "case match_seq its rest of [] \<Rightarrow> False | x # others \<Rightarrow> x = (g, r)"
  shows "case match_seq (Directive c # its) s of
           [] \<Rightarrow> False | x # others \<Rightarrow> x = ((c, m) # g, r)"
  using assms by (auto split: list.splits)

lemma match_seq_Literal:
  assumes "case match_seq its rest of [] \<Rightarrow> False | x # others \<Rightarrow> x = (g, r)"
  shows "case match_seq (Literal c # its) (c # rest) of
           [] \<Rightarrow> False | x # others \<Rightarrow> x = (g, r)"
  using assms by (auto split: list.splits)


lemma dec_value_4:
  assumes "a < 10" "b < 10" "c < 10" "e < 10"
  shows "dec_value [''0123456789'' ! a, ''0123456789'' ! b, ''0123456789'' ! c, ''0123456789'' ! e]
         = int a * 1000 + int b * 100 + int c * 10 + int e"
proof -
  note n = digit_char_not_blank [OF assms(1)] digit_char_not_blank [OF assms(2)]
    digit_char_not_blank [OF assms(3)] digit_char_not_blank [OF assms(4)]
  note v = digit_char_value [OF assms(1)] digit_char_value [OF assms(2)]
    digit_char_value [OF assms(3)] digit_char_value [OF assms(4)]
  show ?thesis
    by (simp add: dec_value_def n v)
qed

lemma directive_Y:
  assumes "1000 \<le> k" and "k < 10000"
  shows "(case List.map_filter (\<lambda>alt. match_alt alt (format_02d (int k))) (directive (CHR ''Y'')) of
            [] \<Rightarrow> False
          | x # others \<Rightarrow> x = (format_02d (int k), []))
         \<and> dec_value (format_02d (int k)) = int k"
proof -
  have r: "k div 1000 < 10" "k div 100 mod 10 < 10" "k div 10 mod 10 < 10" "k mod 10 < 10"
    using assms by simp_all
  have f: "format_02d (int k) = [''0123456789'' ! (k div 1000), ''0123456789'' ! (k div 100 mod 10),
                                 ''0123456789'' ! (k div 10 mod 10), ''0123456789'' ! (k mod 10)]"
    using assms by (rule format_02d_4)
  have m: "List.map_filter (\<lambda>alt. match_alt alt (format_02d (int k))) (directive (CHR ''Y''))
           = [(format_02d (int k), [])]"
    unfolding f by (rule directive_Y_chars [OF r])
  have "dec_value (format_02d (int k)) = int k"
    unfolding f by (simp only: dec_value_4 [OF r] year_digits)
  then show ?thesis
    by (simp only: m list.case)
qed


lemma strptime_calendar:
  assumes S: "S < 60" and M: "M < 60" and H: "H < 24"
      and D: "1 \<le> D" "int D \<le> days_in_month (int Y) (int Mo)"
      and Mo: "1 \<le> Mo" "Mo \<le> 12" and Y: "1000 \<le> Y" "Y < 10000"
  shows "strptime (format_02d (int S) @ format_02d (int M) @ format_02d (int H) @ ''_''
                     @ format_02d (int D) @ format_02d (int Mo) @ format_02d (int Y))
           time_format
         = Inr (Datetime (int Y) (int Mo) (int D) (int H) (int M) (int S))"
proof -
  have D31: "D < 32"
    using D(2) by (simp add: days_in_month_def split: if_splits)
  have Mo13: "Mo < 13"
    using Mo(2) by simp
  let ?sS = "[''0123456789'' ! (S div 10), ''0123456789'' ! (S mod 10)]"
  let ?sM = "[''0123456789'' ! (M div 10), ''0123456789'' ! (M mod 10)]"
  let ?sH = "[''0123456789'' ! (H div 10), ''0123456789'' ! (H mod 10)]"
  let ?sD = "[''0123456789'' ! (D div 10), ''0123456789'' ! (D mod 10)]"
  let ?sMo = "[''0123456789'' ! (Mo div 10), ''0123456789'' ! (Mo mod 10)]"
  let ?sY = "format_02d (int Y)"
  have f: "format_02d (int S) = ?sS" "format_02d (int M) = ?sM" "format_02d (int H) = ?sH"
    "format_02d (int D) = ?sD" "format_02d (int Mo) = ?sMo"
    using S M H D31 Mo13 by (simp_all add: format_02d_2)
  have v: "dec_value ?sS = int S" "dec_value ?sM = int M" "dec_value ?sH = int H"
    "dec_value ?sD = int D" "dec_value ?sMo = int Mo" "dec_value ?sY = int Y"
    using directive_S [OF S] directive_M [OF M] directive_H [OF H] directive_d [OF D(1) D31]
      directive_m [OF Mo(1) Mo13] directive_Y [OF Y]
    by (simp_all only: simp_thms)
  have m0: "case match_seq [] [] of [] \<Rightarrow> False | x # others \<Rightarrow> x = ([], [])"
    by simp
  note m1 = match_seq_Directive [OF directive_Y [OF Y, THEN conjunct1] m0]
  have a1: "List.append ?sMo ?sY = ''0123456789'' ! (Mo div 10) # ''0123456789'' ! (Mo mod 10) # ?sY"
    by simp
  note m2 = match_seq_Directive [OF directive_m [OF Mo(1) Mo13, THEN conjunct1] m1]
  note m3 = match_seq_Directive [OF directive_d [OF D(1) D31, THEN conjunct1] m2]
  note m4 = match_seq_Literal [OF m3, of "CHR ''_''"]
  note m5 = match_seq_Directive [OF directive_H [OF H, THEN conjunct1] m4]
  note m6 = match_seq_Directive [OF directive_M [OF M, THEN conjunct1] m5]
  note m7 = match_seq_Directive [OF directive_S [OF S, THEN conjunct1] m6]
  have str: "format_02d (int S) @ format_02d (int M) @ format_02d (int H) @ ''_''
                     @ format_02d (int D) @ format_02d (int Mo) @ format_02d (int Y)
        = ''0123456789'' ! (S div 10) # ''0123456789'' ! (S mod 10) #
          ''0123456789'' ! (M div 10) # ''0123456789'' ! (M mod 10) #
          ''0123456789'' ! (H div 10) # ''0123456789'' ! (H mod 10) # CHR ''_'' #
          ''0123456789'' ! (D div 10) # ''0123456789'' ! (D mod 10) #
          ''0123456789'' ! (Mo div 10) # ''0123456789'' ! (Mo mod 10) # ?sY"
    by (simp only: f append.simps)
  obtain others where ms: "match_seq time_format
          (format_02d (int S) @ format_02d (int M) @ format_02d (int H) @ ''_''
                     @ format_02d (int D) @ format_02d (int Mo) @ format_02d (int Y))
        = ([(CHR ''S'', ?sS), (CHR ''M'', ?sM), (CHR ''H'', ?sH), (CHR ''d'', ?sD),
            (CHR ''m'', ?sMo), (CHR ''Y'', ?sY)], []) # others"
    using m7 unfolding str time_format_def by (auto split: list.splits)
  have g: "group [(CHR ''S'', ?sS), (CHR ''M'', ?sM), (CHR ''H'', ?sH), (CHR ''d'', ?sD),
            (CHR ''m'', ?sMo), (CHR ''Y'', ?sY)] (CHR ''S'') = int S"
    "group [(CHR ''S'', ?sS), (CHR ''M'', ?sM), (CHR ''H'', ?sH), (CHR ''d'', ?sD),
            (CHR ''m'', ?sMo), (CHR ''Y'', ?sY)] (CHR ''M'') = int M"
    "group [(CHR ''S'', ?sS), (CHR ''M'', ?sM), (CHR ''H'', ?sH), (CHR ''d'', ?sD),
            (CHR ''m'', ?sMo), (CHR ''Y'', ?sY)] (CHR ''H'') = int H"
    "group [(CHR ''S'', ?sS), (CHR ''M'', ?sM), (CHR ''H'', ?sH), (CHR ''d'', ?sD),
            (CHR ''m'', ?sMo), (CHR ''Y'', ?sY)] (CHR ''d'') = int D"
    "group [(CHR ''S'', ?sS), (CHR ''M'', ?sM), (CHR ''H'', ?sH), (CHR ''d'', ?sD),
            (CHR ''m'', ?sMo), (CHR ''Y'', ?sY)] (CHR ''m'') = int Mo"
    "group [(CHR ''S'', ?sS), (CHR ''M'', ?sM), (CHR ''H'', ?sH), (CHR ''d'', ?sD),
            (CHR ''m'', ?sMo), (CHR ''Y'', ?sY)] (CHR ''Y'') = int Y"
    unfolding group_def by (simp_all only: map_of.simps fst_conv snd_conv fun_upd_apply char.inject
          simp_thms if_True if_False option.case v)
  have "make_datetime (int Y) (int Mo) (int D) (int H) (int M) (int S)
        = Inr (Datetime (int Y) (int Mo) (int D) (int H) (int M) (int S))"
    using S M H D Mo Y by (simp add: make_datetime_def)
  then show ?thesis
    unfolding strptime_def ms by (simp only: list.case prod.case g) simp
qed

lemma be_int_acc_nonneg: "0 \<le> a \<Longrightarrow> 0 \<le> foldl (\<lambda>a b. a * 256 + uint (b :: byte)) a d"
  by (induction d arbitrary: a) simp_all

lemma be_int_nonneg: "0 \<le> be_int d"
  unfolding be_int_def by (rule be_int_acc_nonneg) simp

lemma time_stamp_slices:
  "slice 4 8 (hexbuf e) = hexbuf (take 2 (drop 2 e))"
  "slice 8 10 (hexbuf e) = hexbuf (take 1 (drop 4 e))"
  "slice 10 12 (hexbuf e) = hexbuf (take 1 (drop 5 e))"
  "slice 14 16 (hexbuf e) = hexbuf (take 1 (drop 7 e))"
  "slice 16 18 (hexbuf e) = hexbuf (take 1 (drop 8 e))"
  "slice 18 20 (hexbuf e) = hexbuf (take 1 (drop 9 e))"
  by (simp_all add: slice_def)

lemma parse_time_stamp_hexbuf:
  assumes "25 < length d"
  shows "parse_time_stamp (drop 32 (hexbuf d))
         = strptime (format_02d (be_int (take 1 (drop 25 d))) @ format_02d (be_int (take 1 (drop 24 d)))
                     @ format_02d (be_int (take 1 (drop 23 d))) @ ''_''
                     @ format_02d (be_int (take 1 (drop 21 d))) @ format_02d (be_int (take 1 (drop 20 d)))
                     @ format_02d (be_int (take 2 (drop 18 d))))
             time_format"
  using assms
  by (simp add: parse_time_stamp_def time_stamp_slices py_int16_hexbuf bind_exc_def)


lemma parse_time_stamp_calendar:
  assumes len: "25 < length d"
      and y: "1000 \<le> be_int (take 2 (drop 18 d))" "be_int (take 2 (drop 18 d)) \<le> 9999"
      and mo: "1 \<le> be_int (take 1 (drop 20 d))" "be_int (take 1 (drop 20 d)) \<le> 12"
      and dy: "1 \<le> be_int (take 1 (drop 21 d))"
              "be_int (take 1 (drop 21 d))
                 \<le> days_in_month (be_int (take 2 (drop 18 d))) (be_int (take 1 (drop 20 d)))"
      and h: "be_int (take 1 (drop 23 d)) \<le> 23"
      and mi: "be_int (take 1 (drop 24 d)) \<le> 59"
      and s: "be_int (take 1 (drop 25 d)) \<le> 59"
  shows "parse_time_stamp (drop 32 (hexbuf d))
         = Inr (Datetime (be_int (take 2 (drop 18 d))) (be_int (take 1 (drop 20 d)))
                  (be_int (take 1 (drop 21 d))) (be_int (take 1 (drop 23 d)))
                  (be_int (take 1 (drop 24 d))) (be_int (take 1 (drop 25 d))))"
proof -
  define Y Mo D H M S where "Y = nat (be_int (take 2 (drop 18 d)))"
    and "Mo = nat (be_int (take 1 (drop 20 d)))" and "D = nat (be_int (take 1 (drop 21 d)))"
    and "H = nat (be_int (take 1 (drop 23 d)))" and "M = nat (be_int (take 1 (drop 24 d)))"
    and "S = nat (be_int (take 1 (drop 25 d)))"
  have i: "be_int (take 2 (drop 18 d)) = int Y" "be_int (take 1 (drop 20 d)) = int Mo"
    "be_int (take 1 (drop 21 d)) = int D" "be_int (take 1 (drop 23 d)) = int H"
    "be_int (take 1 (drop 24 d)) = int M" "be_int (take 1 (drop 25 d)) = int S"
    unfolding Y_def Mo_def D_def H_def M_def S_def by (simp_all add: be_int_nonneg)
  have r: "S < 60" "M < 60" "H < 24" "1 \<le> D" "int D \<le> days_in_month (int Y) (int Mo)"
    "1 \<le> Mo" "Mo \<le> 12" "1000 \<le> Y" "Y < 10000"
    using y mo dy h mi s unfolding i by simp_all
  show ?thesis
    unfolding parse_time_stamp_hexbuf [OF len] i
    by (rule strptime_calendar [OF r])
qed


lemma validated_length:
  assumes "validations_pass (hexbuf d)"
  shows "30 < length d"
proof (rule ccontr)
  assume "\<not> 30 < length d"
  then have "take 1 (drop 30 d) = []" by simp
  then have "take 2 (drop 28 (drop 32 (hexbuf d))) = []" by simp
  with assms show False by (simp add: validations_pass_def)
qed

lemma validated_calendar:
  assumes "validations_pass (hexbuf d)"
  shows "(let year = be_int (take 2 (drop 18 d)); month = be_int (take 1 (drop 20 d));
               day = be_int (take 1 (drop 21 d)); hour = be_int (take 1 (drop 23 d));
               minute = be_int (take 1 (drop 24 d)); second = be_int (take 1 (drop 25 d))
           in 1000 \<le> year \<and> year \<le> 9999 \<and> 1 \<le> month \<and> month \<le> 12
              \<and> 1 \<le> day \<and> day \<le> days_in_month year month
              \<and> hour \<le> 23 \<and> minute \<le> 59 \<and> second \<le> 59 \<longrightarrow>
              parse_time_stamp (drop 32 (hexbuf d))
                = Inr (Datetime year month day hour minute second))"
proof -
  have len: "25 < length d"
    using validated_length [OF assms] by simp
  show ?thesis
    unfolding Let_def
    by (intro impI, elim conjE, rule parse_time_stamp_calendar [OF len])
qed

section \<open>Lemmas about the manager\<close>

lemma state_close_websocket [simp]: "state (close_websocket s) = state s"
  by (simp add: close_websocket_def emit_def)

lemma state_emit [simp]: "state (emit e s) = state s"
  by (simp add: emit_def)

lemma subscriptions_check_crc [simp]: "subscriptions (check_crc s d) = subscriptions s"
  by (simp add: check_crc_def emit_def Let_def)

lemma decoders_check_crc [simp]:
  "decoders (check_crc s d) = decoders s" "default_decoder (check_crc s d) = default_decoder s"
  by (simp_all add: check_crc_def emit_def Let_def)


subsection \<open>The decoder on the sample frames\<close>

lemma decode_payload_01:
  "decode_kaifa (hexbuf payload_01) = Inr (Some [(''time_stamp'', Py_datetime (Datetime 2017 9 14 19 31 2)), (''Effect'', Py_int 920)])"
  unfolding payload_01_def by code_simp

lemma decode_payload_09:
  "decode_kaifa (hexbuf payload_09) = Inr (Some
     [(''time_stamp'', Py_datetime (Datetime 2019 1 1 10 0 10)),
      (''Version identifier'', Py_str [75, 70, 77, 95, 48, 48, 49]),
      (''Meter-ID'', Py_str [54, 57, 55, 48, 54, 51, 49, 52, 48, 49, 55, 53, 51, 57, 56, 53]),
      (''Meter type'', Py_str [77, 65, 49, 48, 53, 72, 50, 69]),
      (''Effect'', Py_int 1234)])"
  unfolding payload_09_def by code_simp

lemma decode_payload_0E:
  "decode_kaifa (hexbuf payload_0E) = Inr (Some
     [(''time_stamp'', Py_datetime (Datetime 2019 1 1 10 0 10)),
      (''Version identifier'', Py_str [75, 70, 77, 95, 48, 48, 49]),
      (''Meter-ID'', Py_str [54, 57, 55, 48, 54, 51, 49, 52, 48, 49, 55, 53, 51, 57, 56, 53]),
      (''Meter type'', Py_str [77, 65, 49, 48, 53, 72, 50, 69]),
      (''Effect'', Py_int 1234),
      (''Cumulative_hourly_active_import_energy'', Py_int 1000000),
      (''Cumulative_hourly_active_export_energy'', Py_int 2),
      (''Cumulative_hourly_reactive_import_energy'', Py_int 300),
      (''Cumulative_hourly_reactive_export_energy'', Py_int 40000)])"
  unfolding payload_0E_def by code_simp

lemma decode_payload_month_0:
  "decode_kaifa (hexbuf payload_month_0) = Inr None"
  unfolding payload_month_0_def by code_simp

lemma decode_payload_type_0D:
  "decode_kaifa (hexbuf payload_type_0D) = Inr None"
  unfolding payload_type_0D_def by code_simp

lemma decode_payload_short:
  "decode_kaifa (hexbuf payload_short) = Inl IndexError"
  unfolding payload_short_def by code_simp

lemma decode_payload_bad_crc:
  "decode_kaifa (hexbuf payload_bad_crc) = Inr (Some [(''time_stamp'', Py_datetime (Datetime 2017 9 14 19 31 2)), (''Effect'', Py_int 920)])"
  unfolding payload_bad_crc_def by code_simp

subsection \<open>The checksum on the sample frames\<close>

lemma funpow8: "(f ^^ 8) x = f (f (f (f (f (f (f (f x)))))))"
  by (simp add: eval_nat_numeral)

lemma bit_length_17: "bit_length 0x11021 = 17"
  by (simp add: bit_length.simps)

lemma bit_reverse_poly: "bit_reverse 16 0x1021 = 0x8408"
  by (simp add: bit_reverse_def upt_rec bit_0)

lemma crc_init_eq:
  "mkCrcFun 0x11021 True 0xffff 0 data = int (foldl (crc_byte_rev 0x8408) 0xffff (map unat data))"
  using bit_reverse_poly by (simp add: mkCrcFun_def bit_length_17 Let_def)

lemmas crc_eval = crc_init_eq crc_byte_rev_def crc_shift_rev_def funpow8 unpack_H_def

lemma check_crc_month_0:
  "crc s = mkCrcFun 0x11021 True 0xffff 0 \<Longrightarrow> check_crc s payload_month_0 = s"
  by (simp add: check_crc_def payload_month_0_def Let_def crc_eval)

lemma check_crc_type_0D:
  "crc s = mkCrcFun 0x11021 True 0xffff 0 \<Longrightarrow> check_crc s payload_type_0D = s"
  by (simp add: check_crc_def payload_type_0D_def Let_def crc_eval)

lemma check_crc_01:
  "crc s = mkCrcFun 0x11021 True 0xffff 0 \<Longrightarrow> check_crc s payload_01 = s"
  by (simp add: check_crc_def payload_01_def Let_def crc_eval)

lemma check_crc_short:
  "crc s = mkCrcFun 0x11021 True 0xffff 0 \<Longrightarrow> check_crc s payload_short = s"
  by (simp add: check_crc_def payload_short_def Let_def crc_eval)

lemma check_crc_bad:
  "crc s = mkCrcFun 0x11021 True 0xffff 0 \<Longrightarrow>
   check_crc s payload_bad_crc = emit (Log_error (Invalid_crc 44459 44203)) s"
  by (simp add: check_crc_def payload_bad_crc_def Let_def crc_eval)

subsection \<open>When the decoder returns, rejects and raises\<close>

lemma slice_2_4_hexbuf: "slice 2 4 (hexbuf d) = hexbuf (take 1 (drop 1 d))"
  by (simp add: slice_def)

lemma slice_10_12_hexbuf: "slice 10 12 (hexbuf d) = hexbuf (take 1 (drop 5 d))"
  by (simp add: slice_def)

lemma control_field_length:
  assumes "slice 10 12 (hexbuf d) = ''10''"
  shows "5 < length d"
proof (rule ccontr)
  assume "\<not> 5 < length d"
  then have "take 1 (drop 5 d) = []" by simp
  then have "slice 10 12 (hexbuf d) = []" by (simp only: slice_10_12_hexbuf hexbuf_Nil)
  with assms show False by simp
qed

lemma declared_length_hexbuf:
  assumes "1 < length d"
  shows "py_int16 (slice 2 4 (hexbuf d)) = Inr (be_int (take 1 (drop 1 d)))"
proof -
  have "take 1 (drop 1 d) \<noteq> []" using assms by simp
  then show ?thesis by (simp only: slice_2_4_hexbuf py_int16_hexbuf if_False)
qed

lemma decode_kaifa_only_if:
  assumes "decode_kaifa buf = Inr (Some r)"
  shows "validations_pass buf"
  using decode_kaifa_SomeD(1,2,3) [OF assms] by (auto simp: validations_pass_def)

lemma decode_kaifa_otherwise:
  assumes "16 < length d" and "\<not> validations_pass (hexbuf d)"
  shows "decode_kaifa (hexbuf d) = Inr None"
proof -
  obtain n where n: "py_int16 (slice 2 4 (hexbuf d)) = Inr n"
    using declared_length_hexbuf [of d] assms(1) by simp
  have ne: "drop 32 (hexbuf d) \<noteq> []"
    using assms(1) by simp
  show ?thesis
  proof (cases "slice 10 12 (hexbuf d) = ''10'' \<and> n * 2 = int (length (hexbuf d))")
    case False
    then show ?thesis
      using n by (auto simp: decode_kaifa_def bind_exc_def)
  next
    case True
    then have "take 2 (drop 28 (drop 32 (hexbuf d))) \<noteq> ''02''"
      using assms(2) n by (simp add: validations_pass_def)
    then have "decode_try (drop 32 (hexbuf d)) = Inr None"
      using ne by (simp add: decode_try_def Let_def)
    then show ?thesis
      using True n by (simp add: decode_kaifa_def bind_exc_def)
  qed
qed

lemma decode_kaifa_raises_iff:
  "decode_kaifa (hexbuf d) = Inl e \<longleftrightarrow>
     e = IndexError \<and> length d \<le> 16 \<and> slice 10 12 (hexbuf d) = ''10''
     \<and> py_int16 (slice 2 4 (hexbuf d)) = Inr (int (length d))"
proof
  assume L: "decode_kaifa (hexbuf d) = Inl e"
  then have c: "slice 10 12 (hexbuf d) = ''10''"
    by (auto simp: decode_kaifa_def split: if_splits)
  then obtain n where n: "py_int16 (slice 2 4 (hexbuf d)) = Inr n"
    using declared_length_hexbuf [of d] control_field_length [of d] by simp
  have len: "n * 2 = int (length (hexbuf d))"
    using L c n by (auto simp: decode_kaifa_def bind_exc_def split: if_splits)
  have "decode_try (drop 32 (hexbuf d)) = Inl e \<and> e \<noteq> ValueError"
    using L c n len by (auto simp: decode_kaifa_def bind_exc_def split: if_splits sum.splits)
  then have "e = IndexError \<and> drop 32 (hexbuf d) = []"
    using decode_try_Inl by blast
  then show "e = IndexError \<and> length d \<le> 16 \<and> slice 10 12 (hexbuf d) = ''10''
     \<and> py_int16 (slice 2 4 (hexbuf d)) = Inr (int (length d))"
    using c n len by simp
next
  assume R: "e = IndexError \<and> length d \<le> 16 \<and> slice 10 12 (hexbuf d) = ''10''
     \<and> py_int16 (slice 2 4 (hexbuf d)) = Inr (int (length d))"
  then have "drop 32 (hexbuf d) = []" by simp
  then show "decode_kaifa (hexbuf d) = Inl e"
    using R by (simp add: decode_kaifa_def bind_exc_def decode_try_Nil)
qed

lemma decode_kaifa_long_returns:
  assumes "16 < length d"
  shows "\<exists>r. decode_kaifa (hexbuf d) = Inr r"
proof (cases "decode_kaifa (hexbuf d)")
  case (Inl e)
  then show ?thesis using assms by (simp add: decode_kaifa_raises_iff)
next
  case (Inr r)
  then show ?thesis by simp
qed

lemma pkt_type_samples:
  "pkt_type (hexbuf payload_01) = ''01''"
  "pkt_type (hexbuf payload_09) = ''09''"
  "pkt_type (hexbuf payload_0E) = ''0E''"
  "pkt_type (hexbuf payload_month_0) = ''01''"
  "pkt_type (hexbuf payload_type_0D) = ''0D''"
  unfolding payload_01_def payload_09_def payload_0E_def payload_month_0_def payload_type_0D_def
  by code_simp+

lemma validations_month_0: "validations_pass (hexbuf payload_month_0)"
  unfolding payload_month_0_def by code_simp

lemma init_fields:
  "subscriptions init = []" "state init = None" "websocket init = None" "retry_timer init = None"
  "client_task init = None" "wait_time_before_retry init = 15" "show_connection_error init"
  "\<not> is_running init" "crc init = mkCrcFun 0x11021 True 0xffff 0"
  "decoders init = [decode_kaifa]" "default_decoder init = decode_kaifa" "trace init = []"
  by (simp_all add: init_def)

lemma length_samples:
  "length payload_01 = 39" "length payload_month_0 = 39" "length payload_type_0D = 39"
  "length payload_bad_crc = 39" "length payload_short = 10"
  by (simp_all add: payload_01_def payload_month_0_def payload_type_0D_def payload_bad_crc_def
        payload_short_def)

lemma framed_valid:
  assumes "7 \<le> length p"
  shows "9 \<le> length (framed p) \<and> hd (framed p) = 126 \<and> last (framed p) = 126"
    and "\<not> structurally_invalid (framed p)"
    and "butlast (tl (framed p)) = p"
  using assms by (simp_all add: framed_def structurally_invalid_def FEND_def)

lemma process_framed:
  assumes "7 \<le> length p"
  shows "process_msg X s (binary (framed p)) = process_frame X s (framed p)"
  using framed_valid(2) [OF assms] by (simp add: process_msg_def)

lemma process_frame_configured:
  assumes "default_decoder s = decode_kaifa"
  shows "process_frame X s (framed p)
         = (case decode_kaifa (hexbuf p) of
              Inl e \<Rightarrow> (check_crc s p, Some e)
            | Inr (Some r) \<Rightarrow> dispatch X (subscriptions s) (Some r) (check_crc s p)
            | Inr None \<Rightarrow>
                (case try_decoders (decoders s) (hexbuf p) of
                   Inl e \<Rightarrow> (check_crc s p, Some e)
                 | Inr None \<Rightarrow> dispatch X (subscriptions s) None (check_crc s p)
                 | Inr (Some (r, dec)) \<Rightarrow>
                     dispatch X (subscriptions s) (Some r) ((check_crc s p)\<lparr>default_decoder := dec\<rparr>)))"
  using assms
  by (simp add: process_frame_def framed_def run_decoders_def Let_def
           split: sum.splits option.splits prod.splits)

lemma validations_samples:
  "validations_pass (hexbuf payload_01)" "validations_pass (hexbuf payload_09)"
  "validations_pass (hexbuf payload_0E)"
  unfolding payload_01_def payload_09_def payload_0E_def by code_simp+

lemma parse_time_stamp_samples:
  "parse_time_stamp (drop 32 (hexbuf payload_01)) = Inr (Datetime 2017 9 14 19 31 2)"
  "parse_time_stamp (drop 32 (hexbuf payload_09)) = Inr (Datetime 2019 1 1 10 0 10)"
  "parse_time_stamp (drop 32 (hexbuf payload_0E)) = Inr (Datetime 2019 1 1 10 0 10)"
  "parse_time_stamp (drop 32 (hexbuf payload_month_0)) = Inl ValueError"
  unfolding payload_01_def payload_09_def payload_0E_def payload_month_0_def by code_simp+

lemma parse_time_stamp_samples_hexbuf:
  "parse_time_stamp (hexbuf (drop 16 payload_01)) = Inr (Datetime 2017 9 14 19 31 2)"
  "parse_time_stamp (hexbuf (drop 16 payload_09)) = Inr (Datetime 2019 1 1 10 0 10)"
  "parse_time_stamp (hexbuf (drop 16 payload_0E)) = Inr (Datetime 2019 1 1 10 0 10)"
  "parse_time_stamp (hexbuf (drop 16 payload_month_0)) = Inl ValueError"
  using parse_time_stamp_samples by simp_all

lemma text_field_samples:
  "text_field 34 7 payload_09 = Some [75, 70, 77, 95, 48, 48, 49]"
  "text_field 43 16 payload_09 = Some [54, 57, 55, 48, 54, 51, 49, 52, 48, 49, 55, 53, 51, 57, 56, 53]"
  "text_field 61 8 payload_09 = Some [77, 65, 49, 48, 53, 72, 50, 69]"
  "text_field 34 7 payload_0E = Some [75, 70, 77, 95, 48, 48, 49]"
  "text_field 43 16 payload_0E = Some [54, 57, 55, 48, 54, 51, 49, 52, 48, 49, 55, 53, 51, 57, 56, 53]"
  "text_field 61 8 payload_0E = Some [77, 65, 49, 48, 53, 72, 50, 69]"
  unfolding payload_09_def payload_0E_def by code_simp+

lemma be_int_samples:
  "be_int (take 4 (drop 33 payload_01)) = 920"
  "be_int (take 4 (drop 70 payload_09)) = 1234"
  "be_int (take 4 (drop 70 payload_0E)) = 1234"
  "be_int (take 4 (drop 114 payload_0E)) = 1000000"
  "be_int (take 4 (drop 119 payload_0E)) = 2"
  "be_int (take 4 (drop 124 payload_0E)) = 300"
  "be_int (take 4 (drop 129 payload_0E)) = 40000"
  unfolding payload_01_def payload_09_def payload_0E_def by code_simp+

lemma length_samples_long: "length payload_09 = 101" "length payload_0E = 135"
  by (simp_all add: payload_09_def payload_0E_def)

lemma calendar_payload_01:
  "be_int (take 2 (drop 18 payload_01)) = 2017" "be_int (take 1 (drop 20 payload_01)) = 9"
  "be_int (take 1 (drop 21 payload_01)) = 14" "be_int (take 1 (drop 23 payload_01)) = 19"
  "be_int (take 1 (drop 24 payload_01)) = 31" "be_int (take 1 (drop 25 payload_01)) = 2"
  unfolding payload_01_def by code_simp+

section \<open>The Kaifa decoder: field sets\<close>

text \<open>
  Claim C1, as stated: every validated frame whose record-type tag is 01 makes the
  decoder return a Reading. It does not: \<open>payload_month_0\<close> is a frame with correct
  delimiters, length and checksum, the three validations of the decoder pass on it and its
  tag is 01, but its month byte is 0, \<^verbatim>\<open>strptime\<close> raises \<^verbatim>\<open>ValueError\<close>, and
  line 271 returns \<^verbatim>\<open>None\<close>. Message processing ends normally, with nothing logged by
  the class and no subscriber to call.
\<close>

theorem decode_kaifa_invalid_date_counterexample:
  "process_msg (\<lambda>c r. None) (init :: nat manager) (binary (framed payload_month_0)) = (init, None)
   \<and> check_crc (init :: nat manager) payload_month_0 = init
   \<and> validations_pass (hexbuf payload_month_0)
   \<and> pkt_type (hexbuf payload_month_0) = ''01''
   \<and> decode_kaifa (hexbuf payload_month_0) = Inr None"
proof -
  have "process_msg (\<lambda>c r. None) (init :: nat manager) (binary (framed payload_month_0)) = (init, None)"
    by (simp add: process_framed process_frame_configured length_samples check_crc_month_0
          decode_payload_month_0 init_fields)
  then show ?thesis
    by (simp add: check_crc_month_0 init_fields validations_month_0 pkt_type_samples
          decode_payload_month_0)
qed

text \<open>
  Claim C1, amended. For a frame that passes the three validations, what the decoder
  returns is determined by the record-type tag, the time stamp and the length. With tag
  01 it returns a Reading exactly when \<^verbatim>\<open>strptime\<close> accepts the time stamp and the
  payload is longer than 33 bytes, and the Reading is the time stamp and Effect. With tag
  09 it returns a Reading exactly when the time stamp is accepted, the three text fields at
  bytes 34, 43 and 61 are UTF-8 and the payload is longer than 70 bytes, and the Reading
  is the time stamp, Version identifier, Meter-ID, Meter type and Effect. With tag 0E the
  payload has to be longer than 129 bytes, and the Reading has those five fields and the
  four cumulative counters. In every other case of these tags the decoder returns
  \<^verbatim>\<open>None\<close>. The time stamp is accepted, and is the date and time that bytes 18 to 25
  of the payload give, whenever these are a calendar date with a year from 1000 to 9999
  and a time of day. Each numeric field is the unsigned big-endian integer of the bytes at a fixed
  offset of the payload: Effect at bytes 33 to 36 for type 01 and at bytes 70 to 73 for
  types 09 and 0E, the counters at bytes 114, 119, 124 and 129, four bytes each and fewer
  where the frame ends earlier. A Reading that is returned has one of these three tags
  and exactly the fields of its tag.
\<close>

theorem decode_kaifa_field_sets:
  assumes "validations_pass (hexbuf d)"
  shows "(pkt_type (hexbuf d) = ''01'' \<longrightarrow>
           decode_kaifa (hexbuf d) =
             (case parse_time_stamp (drop 32 (hexbuf d)) of
                Inl e \<Rightarrow> Inr None
              | Inr ts \<Rightarrow>
                  if length d \<le> 33 then Inr None
                  else Inr (Some [(''time_stamp'', Py_datetime ts),
                                  (''Effect'', Py_int (be_int (take 4 (drop 33 d))))])))
       \<and> (pkt_type (hexbuf d) = ''09'' \<longrightarrow>
           decode_kaifa (hexbuf d) =
             (case (parse_time_stamp (drop 32 (hexbuf d)),
                    text_field 34 7 d, text_field 43 16 d, text_field 61 8 d) of
                (Inr ts, Some v, Some m, Some ty) \<Rightarrow>
                  if length d \<le> 70 then Inr None
                  else Inr (Some [(''time_stamp'', Py_datetime ts),
                                  (''Version identifier'', Py_str v),
                                  (''Meter-ID'', Py_str m), (''Meter type'', Py_str ty),
                                  (''Effect'', Py_int (be_int (take 4 (drop 70 d))))])
              | _ \<Rightarrow> Inr None))
       \<and> (pkt_type (hexbuf d) = ''0E'' \<longrightarrow>
           decode_kaifa (hexbuf d) =
             (case (parse_time_stamp (drop 32 (hexbuf d)),
                    text_field 34 7 d, text_field 43 16 d, text_field 61 8 d) of
                (Inr ts, Some v, Some m, Some ty) \<Rightarrow>
                  if length d \<le> 129 then Inr None
                  else Inr (Some [(''time_stamp'', Py_datetime ts),
                                  (''Version identifier'', Py_str v),
                                  (''Meter-ID'', Py_str m), (''Meter type'', Py_str ty),
                                  (''Effect'', Py_int (be_int (take 4 (drop 70 d)))),
                                  (''Cumulative_hourly_active_import_energy'',
                                     Py_int (be_int (take 4 (drop 114 d)))),
                                  (''Cumulative_hourly_active_export_energy'',
                                     Py_int (be_int (take 4 (drop 119 d)))),
                                  (''Cumulative_hourly_reactive_import_energy'',
                                     Py_int (be_int (take 4 (drop 124 d)))),
                                  (''Cumulative_hourly_reactive_export_energy'',
                                     Py_int (be_int (take 4 (drop 129 d))))])
              | _ \<Rightarrow> Inr None))
       \<and> (\<forall>r. decode_kaifa (hexbuf d) = Inr (Some r) \<longrightarrow>
             pkt_type (hexbuf d) = ''01'' \<and> keys r = {''time_stamp'', ''Effect''}
           \<or> pkt_type (hexbuf d) = ''09''
               \<and> keys r = {''time_stamp'', ''Version identifier'', ''Meter-ID'', ''Meter type'',
                            ''Effect''}
           \<or> pkt_type (hexbuf d) = ''0E''
               \<and> keys r = {''time_stamp'', ''Version identifier'', ''Meter-ID'', ''Meter type'',
                            ''Effect'', ''Cumulative_hourly_active_import_energy'',
                            ''Cumulative_hourly_active_export_energy'',
                            ''Cumulative_hourly_reactive_import_energy'',
                            ''Cumulative_hourly_reactive_export_energy''})
       \<and> (let year = be_int (take 2 (drop 18 d)); month = be_int (take 1 (drop 20 d));
               day = be_int (take 1 (drop 21 d)); hour = be_int (take 1 (drop 23 d));
               minute = be_int (take 1 (drop 24 d)); second = be_int (take 1 (drop 25 d))
           in 1000 \<le> year \<and> year \<le> 9999 \<and> 1 \<le> month \<and> month \<le> 12
              \<and> 1 \<le> day \<and> day \<le> days_in_month year month
              \<and> hour \<le> 23 \<and> minute \<le> 59 \<and> second \<le> 59 \<longrightarrow>
              parse_time_stamp (drop 32 (hexbuf d))
                = Inr (Datetime year month day hour minute second))"
proof -
  note k = decode_kaifa_validated [OF assms]
  have c01: "pkt_type (hexbuf d) = ''01'' \<longrightarrow>
           decode_kaifa (hexbuf d) =
             (case parse_time_stamp (drop 32 (hexbuf d)) of
                Inl e \<Rightarrow> Inr None
              | Inr ts \<Rightarrow>
                  if length d \<le> 33 then Inr None
                  else Inr (Some [(''time_stamp'', Py_datetime ts),
                                  (''Effect'', Py_int (be_int (take 4 (drop 33 d))))]))"
    by (simp add: k decode_fields_hexbuf_01 split: sum.splits)
  have c09: "pkt_type (hexbuf d) = ''09'' \<longrightarrow>
           decode_kaifa (hexbuf d) =
             (case (parse_time_stamp (drop 32 (hexbuf d)),
                    text_field 34 7 d, text_field 43 16 d, text_field 61 8 d) of
                (Inr ts, Some v, Some m, Some ty) \<Rightarrow>
                  if length d \<le> 70 then Inr None
                  else Inr (Some [(''time_stamp'', Py_datetime ts),
                                  (''Version identifier'', Py_str v),
                                  (''Meter-ID'', Py_str m), (''Meter type'', Py_str ty),
                                  (''Effect'', Py_int (be_int (take 4 (drop 70 d))))])
              | _ \<Rightarrow> Inr None)"
    by (simp add: k decode_fields_full_09 split: sum.splits option.splits)
  have c0E: "pkt_type (hexbuf d) = ''0E'' \<longrightarrow>
           decode_kaifa (hexbuf d) =
             (case (parse_time_stamp (drop 32 (hexbuf d)),
                    text_field 34 7 d, text_field 43 16 d, text_field 61 8 d) of
                (Inr ts, Some v, Some m, Some ty) \<Rightarrow>
                  if length d \<le> 129 then Inr None
                  else Inr (Some [(''time_stamp'', Py_datetime ts),
                                  (''Version identifier'', Py_str v),
                                  (''Meter-ID'', Py_str m), (''Meter type'', Py_str ty),
                                  (''Effect'', Py_int (be_int (take 4 (drop 70 d)))),
                                  (''Cumulative_hourly_active_import_energy'',
                                     Py_int (be_int (take 4 (drop 114 d)))),
                                  (''Cumulative_hourly_active_export_energy'',
                                     Py_int (be_int (take 4 (drop 119 d)))),
                                  (''Cumulative_hourly_reactive_import_energy'',
                                     Py_int (be_int (take 4 (drop 124 d)))),
                                  (''Cumulative_hourly_reactive_export_energy'',
                                     Py_int (be_int (take 4 (drop 129 d))))])
              | _ \<Rightarrow> Inr None)"
    by (simp add: k decode_fields_full_0E split: sum.splits option.splits)
  have ks: "pkt_type (hexbuf d) = ''01'' \<and> keys r = {''time_stamp'', ''Effect''}
           \<or> pkt_type (hexbuf d) = ''09''
               \<and> keys r = {''time_stamp'', ''Version identifier'', ''Meter-ID'', ''Meter type'',
                            ''Effect''}
           \<or> pkt_type (hexbuf d) = ''0E''
               \<and> keys r = {''time_stamp'', ''Version identifier'', ''Meter-ID'', ''Meter type'',
                            ''Effect'', ''Cumulative_hourly_active_import_energy'',
                            ''Cumulative_hourly_active_export_energy'',
                            ''Cumulative_hourly_reactive_import_energy'',
                            ''Cumulative_hourly_reactive_export_energy''}"
    if r: "decode_kaifa (hexbuf d) = Inr (Some r)" for r
  proof -
    consider (a) "pkt_type (hexbuf d) = ''01''" | (b) "pkt_type (hexbuf d) = ''09''"
      | (c) "pkt_type (hexbuf d) = ''0E''"
      using kaifa_tag [OF r] by blast
    then show ?thesis
    proof cases
      case a
      from kaifa_01 [OF r a] have "keys r = {''time_stamp'', ''Effect''}"
        by (auto simp: keys_def)
      with a show ?thesis by simp
    next
      case b
      from kaifa_09 [OF r b]
      have "keys r = {''time_stamp'', ''Version identifier'', ''Meter-ID'', ''Meter type'', ''Effect''}"
        by (auto simp: keys_def)
      with b show ?thesis by simp
    next
      case c
      from kaifa_0E [OF r c]
      have "keys r = {''time_stamp'', ''Version identifier'', ''Meter-ID'', ''Meter type'',
                            ''Effect'', ''Cumulative_hourly_active_import_energy'',
                            ''Cumulative_hourly_active_export_energy'',
                            ''Cumulative_hourly_reactive_import_energy'',
                            ''Cumulative_hourly_reactive_export_energy''}"
        by (auto simp: keys_def)
      with c show ?thesis by simp
    qed
  qed
  show ?thesis
    by (intro conjI allI impI) (rule c01 [rule_format], assumption, rule c09 [rule_format], assumption,
          rule c0E [rule_format], assumption, rule ks, assumption,
          rule validated_calendar [OF assms])
qed

theorem decode_kaifa_field_sets_witness:
  "validations_pass (hexbuf payload_01) \<and> pkt_type (hexbuf payload_01) = ''01''
   \<and> decode_kaifa (hexbuf payload_01)
       = Inr (Some [(''time_stamp'', Py_datetime (Datetime 2017 9 14 19 31 2)), (''Effect'', Py_int 920)])
   \<and> parse_time_stamp (drop 32 (hexbuf payload_01)) = Inr (Datetime 2017 9 14 19 31 2)
   \<and> validations_pass (hexbuf payload_month_0) \<and> pkt_type (hexbuf payload_month_0) = ''01''
   \<and> parse_time_stamp (drop 32 (hexbuf payload_month_0)) = Inl ValueError
   \<and> decode_kaifa (hexbuf payload_month_0) = Inr None
   \<and> validations_pass (hexbuf payload_09) \<and> pkt_type (hexbuf payload_09) = ''09''
   \<and> decode_kaifa (hexbuf payload_09) = Inr (Some
       [(''time_stamp'', Py_datetime (Datetime 2019 1 1 10 0 10)),
        (''Version identifier'', Py_str [75, 70, 77, 95, 48, 48, 49]),
        (''Meter-ID'', Py_str [54, 57, 55, 48, 54, 51, 49, 52, 48, 49, 55, 53, 51, 57, 56, 53]),
        (''Meter type'', Py_str [77, 65, 49, 48, 53, 72, 50, 69]),
        (''Effect'', Py_int 1234)])
   \<and> validations_pass (hexbuf payload_0E) \<and> pkt_type (hexbuf payload_0E) = ''0E''
   \<and> decode_kaifa (hexbuf payload_0E) = Inr (Some
       [(''time_stamp'', Py_datetime (Datetime 2019 1 1 10 0 10)),
        (''Version identifier'', Py_str [75, 70, 77, 95, 48, 48, 49]),
        (''Meter-ID'', Py_str [54, 57, 55, 48, 54, 51, 49, 52, 48, 49, 55, 53, 51, 57, 56, 53]),
        (''Meter type'', Py_str [77, 65, 49, 48, 53, 72, 50, 69]),
        (''Effect'', Py_int 1234),
        (''Cumulative_hourly_active_import_energy'', Py_int 1000000),
        (''Cumulative_hourly_active_export_energy'', Py_int 2),
        (''Cumulative_hourly_reactive_import_energy'', Py_int 300),
        (''Cumulative_hourly_reactive_export_energy'', Py_int 40000)])"
proof -
  have ts: "parse_time_stamp (drop 32 (hexbuf payload_01)) = Inr (Datetime 2017 9 14 19 31 2)"
    using decode_kaifa_field_sets [OF validations_samples(1), THEN conjunct2, THEN conjunct2,
            THEN conjunct2, THEN conjunct2]
    unfolding Let_def calendar_payload_01
    by (simp add: days_in_month_def)
  have a: "decode_kaifa (hexbuf payload_01)
       = Inr (Some [(''time_stamp'', Py_datetime (Datetime 2017 9 14 19 31 2)), (''Effect'', Py_int 920)])"
    using decode_kaifa_field_sets [OF validations_samples(1)]
    by (simp add: pkt_type_samples parse_time_stamp_samples_hexbuf length_samples be_int_samples)
  have b: "decode_kaifa (hexbuf payload_month_0) = Inr None"
    using decode_kaifa_field_sets [OF validations_month_0]
    by (simp add: pkt_type_samples parse_time_stamp_samples_hexbuf)
  have c: "decode_kaifa (hexbuf payload_09) = Inr (Some
       [(''time_stamp'', Py_datetime (Datetime 2019 1 1 10 0 10)),
        (''Version identifier'', Py_str [75, 70, 77, 95, 48, 48, 49]),
        (''Meter-ID'', Py_str [54, 57, 55, 48, 54, 51, 49, 52, 48, 49, 55, 53, 51, 57, 56, 53]),
        (''Meter type'', Py_str [77, 65, 49, 48, 53, 72, 50, 69]),
        (''Effect'', Py_int 1234)])"
    using decode_kaifa_field_sets [OF validations_samples(2)]
    by (simp add: pkt_type_samples parse_time_stamp_samples_hexbuf length_samples_long
          be_int_samples text_field_samples)
  have e: "decode_kaifa (hexbuf payload_0E) = Inr (Some
       [(''time_stamp'', Py_datetime (Datetime 2019 1 1 10 0 10)),
        (''Version identifier'', Py_str [75, 70, 77, 95, 48, 48, 49]),
        (''Meter-ID'', Py_str [54, 57, 55, 48, 54, 51, 49, 52, 48, 49, 55, 53, 51, 57, 56, 53]),
        (''Meter type'', Py_str [77, 65, 49, 48, 53, 72, 50, 69]),
        (''Effect'', Py_int 1234),
        (''Cumulative_hourly_active_import_energy'', Py_int 1000000),
        (''Cumulative_hourly_active_export_energy'', Py_int 2),
        (''Cumulative_hourly_reactive_import_energy'', Py_int 300),
        (''Cumulative_hourly_reactive_export_energy'', Py_int 40000)])"
    using decode_kaifa_field_sets [OF validations_samples(3)]
    by (simp add: pkt_type_samples parse_time_stamp_samples_hexbuf length_samples_long
          be_int_samples text_field_samples)
  show ?thesis
    using ts
    by (simp add: a b c e validations_samples validations_month_0 pkt_type_samples
          parse_time_stamp_samples_hexbuf)
qed

section \<open>Subscriptions\<close>

lemma dispatch_all_return:
  "\<forall>cb \<in> set cbs. X cb r = None \<Longrightarrow>
   dispatch X cbs r s = (s\<lparr>trace := trace s @ map (\<lambda>cb. Called cb r) cbs\<rparr>, None)"
  by (induction cbs arbitrary: s) (simp_all add: emit_def)

lemma distinct_subscribe: "distinct (subscriptions s) \<Longrightarrow> distinct (subscriptions (subscribe s cb))"
  by (simp add: subscribe_def)

lemma distinct_unsubscribe: "distinct (subscriptions s) \<Longrightarrow> distinct (subscriptions (unsubscribe s cb))"
  by (simp add: unsubscribe_def)

lemma count_list_distinct: "distinct xs \<Longrightarrow> x \<in> set xs \<Longrightarrow> count_list xs x = 1"
  by (induction xs) auto

lemma count_list_Called: "count_list (map (\<lambda>c. Called c r) xs) (Called cb r) = count_list xs cb"
  by (induction xs) auto

lemma filter_absent: "x \<notin> set xs \<Longrightarrow> filter (\<lambda>c. c \<noteq> x) xs = xs"
  by (induction xs) auto

lemma remove1_distinct_filter: "distinct xs \<Longrightarrow> remove1 x xs = filter (\<lambda>c. c \<noteq> x) xs"
  by (induction xs) (auto simp: filter_absent)

text \<open>
  Claim C9. Subscribing a callback twice is subscribing it once: the second call changes
  nothing, a new callback goes to the end of the list and one already there keeps its
  place. Unsubscribing a callback that is not subscribed changes nothing. In a list
  without duplicates (as every list built by \<open>subscribe\<close> and \<open>unsubscribe\<close> from the
  empty one is) the callback is then there exactly once, unsubscribing removes it and
  keeps the others in order, and the dispatch loop of lines 199-200 calls it exactly once
  per message when no callback raises.
\<close>

theorem subscribe_idempotent:
  "subscribe (subscribe s cb) cb = subscribe s cb
   \<and> subscriptions (subscribe s cb)
       = (if cb \<in> set (subscriptions s) then subscriptions s else subscriptions s @ [cb])
   \<and> (cb \<notin> set (subscriptions s) \<longrightarrow> unsubscribe s cb = s)
   \<and> (distinct (subscriptions s) \<longrightarrow>
        count_list (subscriptions (subscribe (subscribe s cb) cb)) cb = 1
        \<and> subscriptions (unsubscribe s cb) = filter (\<lambda>c. c \<noteq> cb) (subscriptions s))
   \<and> (distinct (subscriptions s) \<and> (\<forall>c \<in> set (subscriptions (subscribe s cb)). X c r = None) \<longrightarrow>
        (\<exists>t. dispatch X (subscriptions (subscribe (subscribe s cb) cb)) r (subscribe (subscribe s cb) cb)
               = (t, None)
           \<and> count_list (drop (length (trace s)) (trace t)) (Called cb r) = 1))"
proof -
  have idem: "subscribe (subscribe s cb) cb = subscribe s cb"
    by (simp add: subscribe_def)
  have subs: "subscriptions (subscribe s cb)
       = (if cb \<in> set (subscriptions s) then subscriptions s else subscriptions s @ [cb])"
    by (simp add: subscribe_def)
  have unsub: "cb \<notin> set (subscriptions s) \<longrightarrow> unsubscribe s cb = s"
    by (simp add: unsubscribe_def)
  have mem: "cb \<in> set (subscriptions (subscribe s cb))"
    by (simp add: subscribe_def)
  have one: "count_list (subscriptions (subscribe s cb)) cb = 1" if "distinct (subscriptions s)"
    using that mem by (intro count_list_distinct distinct_subscribe)
  have rem: "subscriptions (unsubscribe s cb) = filter (\<lambda>c. c \<noteq> cb) (subscriptions s)"
    if "distinct (subscriptions s)"
    using that by (simp add: unsubscribe_def remove1_distinct_filter filter_absent)
  have disp: "\<exists>t. dispatch X (subscriptions (subscribe s cb)) r (subscribe s cb) = (t, None)
           \<and> count_list (drop (length (trace s)) (trace t)) (Called cb r) = 1"
    if "distinct (subscriptions s)" "\<forall>c \<in> set (subscriptions (subscribe s cb)). X c r = None"
  proof -
    have tr: "trace (subscribe s cb) = trace s" by (simp add: subscribe_def)
    show ?thesis
      using dispatch_all_return [of "subscriptions (subscribe s cb)" X r "subscribe s cb"] that(2) one [OF that(1)]
      by (simp add: tr count_list_Called)
  qed
  show ?thesis
    unfolding idem using subs unsub one rem disp by blast
qed

theorem subscribe_idempotent_witness:
  "subscriptions (subscribe (subscribe (init :: nat manager) 7) 7) = [7]
   \<and> subscriptions (subscribe (subscribe (subscribe init 7) 8) 7) = [7, 8 :: nat]
   \<and> unsubscribe (subscribe (init :: nat manager) 7) 8 = subscribe init 7
   \<and> count_list (subscriptions (subscribe (subscribe (subscribe (init :: nat manager) 8) 7) 7)) 7 = 1
   \<and> fst (dispatch (\<lambda>c r. None) [8, 7] None (subscribe (subscribe (subscribe (init :: nat manager) 8) 7) 7))
       = (subscribe (subscribe init 8) 7)\<lparr>trace := [Called 8 None, Called 7 None]\<rparr>"
  using subscribe_idempotent [of "subscribe (init :: nat manager) 8" 7 "\<lambda>c r. None" None]
  by (simp add: subscribe_def unsubscribe_def init_def emit_def)

section \<open>Messages that are not binary\<close>

lemma process_msg_not_binary:
  assumes "msg_type msg \<noteq> BINARY" "msg_data msg \<noteq> None"
  shows "process_msg X s msg = (s, if subscriptions s = [] then None else Some UnboundLocalError)"
  using assms by (auto simp: process_msg_def split: option.splits)

lemma handlers_Raised:
  "handlers (s, Raised e) =
     (let s = close_websocket (emit (Log_error (Unexpected_error e)) s) in
      if state s \<noteq> Some STATE_STOPPED then (retry (s\<lparr>state := Some STATE_STOPPED\<rparr>), Returned)
      else (s, Returned))"
  by (simp add: handlers_def Let_def)

lemma handlers_Returned:
  "handlers (s, Returned) =
     (let s = close_websocket s in
      if state s \<noteq> Some STATE_STOPPED then (retry (s\<lparr>state := Some STATE_STOPPED\<rparr>), Returned)
      else (s, Returned))"
  by (simp add: handlers_def Let_def)

text \<open>
  Claim C10, as stated: every message whose type is not \<^verbatim>\<open>BINARY\<close> and whose data is not
  \<^verbatim>\<open>None\<close> raises the unbound-variable error in \<^verbatim>\<open>_process_msg\<close>, and the error ends
  the connection. A message of type \<^verbatim>\<open>ERROR\<close> carries its exception as data, and the loop
  returns at line 100 before \<^verbatim>\<open>_process_msg\<close> is called: the connection ends with no
  error raised or logged.
\<close>

theorem error_message_counterexample:
  "msg_type \<lparr>msg_type = ERROR, msg_data = Some Object\<rparr> \<noteq> BINARY
   \<and> msg_data \<lparr>msg_type = ERROR, msg_data = Some Object\<rparr> \<noteq> None
   \<and> running (\<lambda>c r. None) ((init :: nat manager)\<lparr>subscriptions := [1]\<rparr>) Connected
        [Recv_msg \<lparr>msg_type = ERROR, msg_data = Some Object\<rparr>]
       = (init\<lparr>subscriptions := [1], state := Some STATE_STARTING, retry_timer := Some Handle,
                trace := [Ws_close, Timer_scheduled 15]\<rparr>, Returned)
   \<and> Log_error (Unexpected_error UnboundLocalError)
       \<notin> set (trace (fst (running (\<lambda>c r. None) ((init :: nat manager)\<lparr>subscriptions := [1]\<rparr>)
              Connected [Recv_msg \<lparr>msg_type = ERROR, msg_data = Some Object\<rparr>])))"
  by (simp add: running_def init_def close_websocket_def handlers_Returned retry_def
        cancel_retry_timer_def emit_def)

text \<open>
  Claim C10, amended. A message whose type is not \<^verbatim>\<open>BINARY\<close> and whose data is not
  \<^verbatim>\<open>None\<close> makes \<open>process_msg\<close>, with a subscriber registered, raise
  \<^verbatim>\<open>UnboundLocalError\<close> and change nothing: line 199 is reached with \<^verbatim>\<open>decoded_data\<close>
  never assigned. In the connection loop in state Running, when the type is neither
  \<^verbatim>\<open>CLOSED\<close> nor \<^verbatim>\<open>ERROR\<close>, the exception reaches the catch-all handler: the error is
  logged, the transport is closed, the state is set to Stopped, and \<open>retry\<close> is called,
  whatever messages were still to come. A message of type \<^verbatim>\<open>CLOSED\<close> or \<^verbatim>\<open>ERROR\<close>
  does not reach \<^verbatim>\<open>_process_msg\<close>: the loop returns at line 100 and the connection ends
  the same way, without the error.
\<close>

theorem non_binary_message_ends_connection:
  assumes "msg_type msg \<noteq> BINARY" and "msg_data msg \<noteq> None" and "subscriptions s \<noteq> []"
  shows "process_msg X s msg = (s, Some UnboundLocalError)
     \<and> (state s = Some STATE_RUNNING \<and> msg_type msg \<noteq> CLOSED \<and> msg_type msg \<noteq> ERROR \<longrightarrow>
          handlers (receive_loop X s k (Recv_msg msg # evs))
            = (retry ((close_websocket
                        (emit (Log_error (Unexpected_error UnboundLocalError))
                           (s\<lparr>is_running := True\<rparr>)))\<lparr>state := Some STATE_STOPPED\<rparr>),
               Returned))
     \<and> (state s = Some STATE_RUNNING \<and> (msg_type msg = CLOSED \<or> msg_type msg = ERROR) \<longrightarrow>
          handlers (receive_loop X s k (Recv_msg msg # evs))
            = (retry ((close_websocket s)\<lparr>state := Some STATE_STOPPED\<rparr>), Returned))"
proof -
  have p: "process_msg X t msg = (t, Some UnboundLocalError)" if "subscriptions t = subscriptions s" for t
    using assms that by (simp add: process_msg_not_binary)
  show ?thesis
    using p [of s] p [of "s\<lparr>is_running := True\<rparr>"]
    by (auto simp: handlers_Raised handlers_Returned Let_def)
qed

theorem non_binary_message_ends_connection_witness:
  "running (\<lambda>c r. None) ((init :: nat manager)\<lparr>subscriptions := [1]\<rparr>) Connected
      [Recv_msg \<lparr>msg_type = TEXT, msg_data = Some (Text ''hello'')\<rparr>, Recv_msg (binary (framed payload_01))]
     = (init\<lparr>subscriptions := [1], is_running := True, state := Some STATE_STARTING,
              retry_timer := Some Handle,
              trace := [Log_error (Unexpected_error UnboundLocalError), Ws_close, Timer_scheduled 15]\<rparr>,
        Returned)"
  using non_binary_message_ends_connection
          [of "\<lparr>msg_type = TEXT, msg_data = Some (Text ''hello'')\<rparr>"
              "(init :: nat manager)\<lparr>subscriptions := [1], websocket := Some Handle, state := Some STATE_RUNNING\<rparr>"
              "\<lambda>c r. None" 0 "[Recv_msg (binary (framed payload_01))]"]
  by (simp add: running_def init_def close_websocket_def retry_def cancel_retry_timer_def emit_def)

section \<open>The Kaifa decoder: validations\<close>

text \<open>
  Claim C4. The decoder returns a Reading only if its three checks pass, by
  \<open>decode_kaifa_only_if\<close>, where the data-type tag is read at byte 30 of the payload, 14
  bytes after the 16-byte header; and a frame longer than 16 bytes that fails one of them
  gives \<^verbatim>\<open>None\<close>, by \<open>decode_kaifa_otherwise\<close>. A frame of at most 16 bytes that passes
  the first two checks does not: nothing follows the header, the tag is not 02, and the log
  call of line 230 evaluates \<^verbatim>\<open>buf[0]\<close> on the empty string. The \<^verbatim>\<open>IndexError\<close> is not
  caught by line 269, see \<open>decode_kaifa_raises_iff\<close>. \<open>payload_short\<close> is such a frame, with
  a correct checksum: control field 10, declared length 10 for 20 hexadecimal digits. The
  decoder raises, the exception reaches the catch-all handler of the connection loop, and
  the connection is closed and a retry scheduled.
\<close>

theorem decode_kaifa_short_frame_raises:
  "slice 10 12 (hexbuf payload_short) = ''10''
   \<and> py_int16 (slice 2 4 (hexbuf payload_short)) = Inr 10
   \<and> length (hexbuf payload_short) = 20
   \<and> decode_kaifa (hexbuf payload_short) = Inl IndexError
   \<and> running (\<lambda>c r. None) (init :: nat manager) Connected [Recv_msg (binary (framed payload_short))]
       = (init\<lparr>is_running := True, state := Some STATE_STARTING, retry_timer := Some Handle,
                trace := [Log_error (Unexpected_error IndexError), Ws_close, Timer_scheduled 15]\<rparr>,
          Returned)"
proof -
  have a: "slice 10 12 (hexbuf payload_short) = ''10''"
      "py_int16 (slice 2 4 (hexbuf payload_short)) = Inr 10"
    unfolding payload_short_def by code_simp+
  have l: "7 \<le> length payload_short"
    by (simp add: length_samples)
  have c: "check_crc t payload_short = t" if "crc t = crc init" for t :: "nat manager"
    using that by (intro check_crc_short) (simp add: init_fields)
  have p: "process_msg (\<lambda>c r. None) t (binary (framed payload_short)) = (t, Some IndexError)"
    if "crc t = crc init" "default_decoder t = decode_kaifa" for t :: "nat manager"
    using that by (simp add: process_framed [OF l] process_frame_configured decode_payload_short c)
  have b: "running (\<lambda>c r. None) (init :: nat manager) Connected [Recv_msg (binary (framed payload_short))]
       = (init\<lparr>is_running := True, state := Some STATE_STARTING, retry_timer := Some Handle,
                trace := [Log_error (Unexpected_error IndexError), Ws_close, Timer_scheduled 15]\<rparr>,
          Returned)"
    by (simp add: running_def handlers_Raised close_websocket_def retry_def cancel_retry_timer_def
          emit_def p init_fields Let_def)
  show ?thesis
    using a b by (simp add: length_samples decode_payload_short)
qed

section \<open>The connection loop: idle timeouts\<close>

lemma receive_loop_pongs:
  assumes "state s = Some STATE_RUNNING" and "k + j \<le> 10"
  shows "receive_loop X s k (replicate j (Recv_timeout Pong) @ evs)
         = receive_loop X (s\<lparr>trace := trace s @ replicate j Ws_ping\<rparr>) (k + j) evs"
  using assms
proof (induction j arbitrary: s k)
  case 0
  then show ?case by simp
next
  case (Suc j)
  have "receive_loop X s k (replicate (Suc j) (Recv_timeout Pong) @ evs)
        = receive_loop X (emit Ws_ping s) (Suc k) (replicate j (Recv_timeout Pong) @ evs)"
    using Suc.prems by (simp add: Let_def)
  also have "\<dots> = receive_loop X ((emit Ws_ping s)\<lparr>trace := trace (emit Ws_ping s) @ replicate j Ws_ping\<rparr>)
                      (Suc k + j) evs"
    using Suc.prems by (intro Suc.IH) simp_all
  also have "(emit Ws_ping s)\<lparr>trace := trace (emit Ws_ping s) @ replicate j Ws_ping\<rparr>
             = s\<lparr>trace := trace s @ replicate (Suc j) Ws_ping\<rparr>"
    by (simp add: emit_def replicate_app_Cons_same)
  finally show ?case by simp
qed

lemma receive_loop_idle_exit:
  assumes "state s = Some STATE_RUNNING"
  shows "receive_loop X s 0 (replicate 10 (Recv_timeout Pong) @ Recv_timeout p # evs)
         = ((if show_connection_error s
             then s\<lparr>trace := trace s @ replicate 10 Ws_ping @ [Log_error No_data_reconnecting]\<rparr>
             else s\<lparr>trace := trace s @ replicate 10 Ws_ping\<rparr>)
              \<lparr>show_connection_error := False, is_running := False\<rparr>, Returned)"
proof -
  have "receive_loop X s 0 (replicate 10 (Recv_timeout Pong) @ Recv_timeout p # evs)
        = receive_loop X (s\<lparr>trace := trace s @ replicate 10 Ws_ping\<rparr>) 10 (Recv_timeout p # evs)"
    using receive_loop_pongs [OF assms, of 0 10 X "Recv_timeout p # evs"] by simp
  also have "\<dots> = ((if show_connection_error s
             then s\<lparr>trace := trace s @ replicate 10 Ws_ping @ [Log_error No_data_reconnecting]\<rparr>
             else s\<lparr>trace := trace s @ replicate 10 Ws_ping\<rparr>)
              \<lparr>show_connection_error := False, is_running := False\<rparr>, Returned)"
    using assms by (simp add: Let_def emit_def)
  finally show ?thesis .
qed

text \<open>
  Claim C5, as stated: after eleven receive timeouts in a row the loop exits, the state
  becomes Stopped and a retry is scheduled. The loop does exit and the retry is scheduled,
  but the state the connection task leaves is Starting: line 111 sets Stopped and line
  112 calls \<open>retry\<close>, which sets Starting at line 141 before it schedules the timer.
\<close>

theorem idle_timeouts_state_counterexample:
  "running (\<lambda>c r. None) (init :: nat manager) Connected
      (replicate 10 (Recv_timeout Pong) @ [Recv_timeout Pong])
     = (init\<lparr>show_connection_error := False, state := Some STATE_STARTING,
              retry_timer := Some Handle,
              trace := replicate 10 Ws_ping
                       @ [Log_error No_data_reconnecting, Ws_close, Timer_scheduled 15]\<rparr>, Returned)
   \<and> state (fst (running (\<lambda>c r. None) (init :: nat manager) Connected
                (replicate 10 (Recv_timeout Pong) @ [Recv_timeout Pong]))) \<noteq> Some STATE_STOPPED"
proof -
  let ?s = "(init :: nat manager)\<lparr>websocket := Some Handle, state := Some STATE_RUNNING\<rparr>"
  have "state ?s = Some STATE_RUNNING"
    by simp
  then have "receive_loop (\<lambda>c r. None) ?s 0 (replicate 10 (Recv_timeout Pong) @ [Recv_timeout Pong])
        = ((if show_connection_error ?s
             then ?s\<lparr>trace := trace ?s @ replicate 10 Ws_ping @ [Log_error No_data_reconnecting]\<rparr>
             else ?s\<lparr>trace := trace ?s @ replicate 10 Ws_ping\<rparr>)
              \<lparr>show_connection_error := False, is_running := False\<rparr>, Returned)"
    by (rule receive_loop_idle_exit)
  then have "running (\<lambda>c r. None) (init :: nat manager) Connected
      (replicate 10 (Recv_timeout Pong) @ [Recv_timeout Pong])
     = (init\<lparr>show_connection_error := False, state := Some STATE_STARTING,
              retry_timer := Some Handle,
              trace := replicate 10 Ws_ping
                       @ [Log_error No_data_reconnecting, Ws_close, Timer_scheduled 15]\<rparr>, Returned)"
    by (simp add: running_def init_def close_websocket_def handlers_Returned retry_def
          cancel_retry_timer_def emit_def)
  then show ?thesis
    by simp
qed

text \<open>
  Claim C5, amended. In state Running with the idle counter at 0, as at the start of the
  loop and after every normal message, eleven receive timeouts in a row, the pings after
  the first ten answered, end the loop at the eleventh, whatever comes after. The loop
  sets \<open>is_running\<close> to false and logs "No data, reconnecting." unless the error is
  suppressed; the handlers close the transport, set the state to Stopped and call
  \<open>retry\<close>, which sets the state to Starting, cancels a pending timer and schedules a
  new one with the manager's delay, 15 seconds in every manager \<open>init\<close> makes. When the
  connection task ends the state is Starting and the timer is pending.
\<close>

theorem idle_timeouts_end_connection:
  assumes "state s = Some STATE_RUNNING" and "websocket s = Some Handle"
  shows "handlers (receive_loop X s 0 (replicate 10 (Recv_timeout Pong) @ Recv_timeout p # evs))
           = (s\<lparr>show_connection_error := False, is_running := False, websocket := None,
                state := Some STATE_STARTING, retry_timer := Some Handle,
                trace := trace s @ replicate 10 Ws_ping
                         @ (if show_connection_error s then [Log_error No_data_reconnecting] else [])
                         @ [Ws_close]
                         @ (if retry_timer s = None then [] else [Timer_cancelled])
                         @ [Timer_scheduled (wait_time_before_retry s)]\<rparr>, Returned)
       \<and> handlers (receive_loop X s 0 (replicate 10 (Recv_timeout Pong) @ Recv_timeout p # evs))
           = (retry (s\<lparr>show_connection_error := False, is_running := False, websocket := None,
                      state := Some STATE_STOPPED,
                      trace := trace s @ replicate 10 Ws_ping
                         @ (if show_connection_error s then [Log_error No_data_reconnecting] else [])
                         @ [Ws_close]\<rparr>), Returned)"
proof -
  have "handlers (receive_loop X s 0 (replicate 10 (Recv_timeout Pong) @ Recv_timeout p # evs))
           = (retry (s\<lparr>show_connection_error := False, is_running := False, websocket := None,
                      state := Some STATE_STOPPED,
                      trace := trace s @ replicate 10 Ws_ping
                         @ (if show_connection_error s then [Log_error No_data_reconnecting] else [])
                         @ [Ws_close]\<rparr>), Returned)"
    unfolding receive_loop_idle_exit [OF assms(1)]
    using assms
    by (cases s) (simp add: handlers_def close_websocket_def emit_def Let_def)
  moreover have "retry (s\<lparr>show_connection_error := False, is_running := False, websocket := None,
                      state := Some STATE_STOPPED,
                      trace := trace s @ replicate 10 Ws_ping
                         @ (if show_connection_error s then [Log_error No_data_reconnecting] else [])
                         @ [Ws_close]\<rparr>)
        = s\<lparr>show_connection_error := False, is_running := False, websocket := None,
                state := Some STATE_STARTING, retry_timer := Some Handle,
                trace := trace s @ replicate 10 Ws_ping
                         @ (if show_connection_error s then [Log_error No_data_reconnecting] else [])
                         @ [Ws_close]
                         @ (if retry_timer s = None then [] else [Timer_cancelled])
                         @ [Timer_scheduled (wait_time_before_retry s)]\<rparr>"
    by (cases s) (simp add: retry_def cancel_retry_timer_def emit_def Let_def)
  ultimately show ?thesis
    by simp
qed

theorem idle_timeouts_end_connection_witness:
  "running (\<lambda>c r. None) (init :: nat manager) Connected
      (replicate 10 (Recv_timeout Pong) @ [Recv_timeout Ping_timeout])
     = (init\<lparr>trace := replicate 10 Ws_ping @ [Log_error No_data_reconnecting, Ws_close, Timer_scheduled 15],
              show_connection_error := False, is_running := False, websocket := None,
              state := Some STATE_STARTING, retry_timer := Some Handle\<rparr>, Returned)"
  using idle_timeouts_end_connection
          [of "(init :: nat manager)\<lparr>websocket := Some Handle, state := Some STATE_RUNNING\<rparr>"
              "\<lambda>c r. None" Ping_timeout "[]"]
  by (simp add: running_def init_def close_websocket_def)

section \<open>Frames no decoder accepts, and the checksum\<close>

lemma try_decoders_all_None:
  "\<forall>dec \<in> set ds. dec buf = Inr None \<Longrightarrow> try_decoders ds buf = Inr None"
  by (induction ds) simp_all

lemma valid_frame: "9 \<le> length raw \<and> hd raw = 126 \<and> last raw = 126 \<Longrightarrow> \<not> structurally_invalid raw"
  by (cases raw) (auto simp: structurally_invalid_def FEND_def)

lemma dispatch_general:
  "dispatch X cbs r s
   = (s\<lparr>trace := trace s @ map (\<lambda>cb. Called cb r)
                  (takeWhile (\<lambda>cb. X cb r = None) cbs
                   @ take 1 (dropWhile (\<lambda>cb. X cb r = None) cbs))\<rparr>,
      case dropWhile (\<lambda>cb. X cb r = None) cbs of [] \<Rightarrow> None | cb # rest \<Rightarrow> X cb r)"
proof (induction cbs arbitrary: s)
  case Nil
  show ?case by simp
next
  case (Cons cb cbs)
  show ?case
  proof (cases "X cb r")
    case None
    then show ?thesis
      by (simp add: Cons emit_def)
  next
    case (Some e)
    then show ?thesis
      by (simp add: emit_def)
  qed
qed

text \<open>
  Claim C7, as stated: on a structurally valid frame that no decoder accepts every
  subscribed callback is called with \<^verbatim>\<open>None\<close> and no exception escapes. Lines 199-200
  call the callbacks with no \<^verbatim>\<open>try\<close> around them: when the first of two callbacks
  raises on \<^verbatim>\<open>None\<close>, the second is not called and the exception leaves
  \<open>process_msg\<close>.
\<close>

theorem undecodable_frame_raising_callback_counterexample:
  "9 \<le> length (framed payload_type_0D) \<and> hd (framed payload_type_0D) = 126
   \<and> last (framed payload_type_0D) = 126
   \<and> decode_kaifa (hexbuf payload_type_0D) = Inr None
   \<and> process_msg (\<lambda>c r. if c = 1 \<and> r = None then Some External_error else None)
        ((init :: nat manager)\<lparr>subscriptions := [1, 2]\<rparr>) (binary (framed payload_type_0D))
       = (init\<lparr>subscriptions := [1, 2], trace := [Called 1 None]\<rparr>, Some External_error)"
proof -
  have l: "7 \<le> length payload_type_0D"
    by (simp add: length_samples)
  have c: "check_crc t payload_type_0D = t" if "crc t = crc init" for t :: "nat manager"
    using that by (intro check_crc_type_0D) (simp add: init_fields)
  have "process_msg (\<lambda>c r. if c = 1 \<and> r = None then Some External_error else None)
        ((init :: nat manager)\<lparr>subscriptions := [1, 2]\<rparr>) (binary (framed payload_type_0D))
       = (init\<lparr>subscriptions := [1, 2], trace := [Called 1 None]\<rparr>, Some External_error)"
    by (simp add: process_framed [OF l] process_frame_configured decode_payload_type_0D c
          init_fields emit_def)
  then show ?thesis
    using framed_valid(1) [OF l] by (simp add: decode_payload_type_0D)
qed

text \<open>
  Claim C7, amended. For a structurally valid binary frame on which the default decoder
  and every registered decoder return \<^verbatim>\<open>None\<close>, message processing calls the subscribed
  callbacks with \<^verbatim>\<open>None\<close> in the order of the subscription list, up to and including
  the first one that raises: the callbacks after it are not called, and its exception
  leaves \<open>process_msg\<close> for the connection loop. When no callback raises on \<^verbatim>\<open>None\<close>,
  each entry of the list is called once and processing returns without an exception. The
  manager changes by the checksum message, if any, and the calls alone.
\<close>

theorem undecodable_frame_dispatches_None:
  assumes "9 \<le> length raw \<and> hd raw = 126 \<and> last raw = 126"
      and "default_decoder s (hexbuf (butlast (tl raw))) = Inr None"
      and "\<forall>dec \<in> set (decoders s). dec (hexbuf (butlast (tl raw))) = Inr None"
  shows "process_msg X s \<lparr>msg_type = BINARY, msg_data = Some (Bytes raw)\<rparr>
         = ((check_crc s (butlast (tl raw)))
              \<lparr>trace := trace (check_crc s (butlast (tl raw)))
                        @ map (\<lambda>cb. Called cb None)
                            (takeWhile (\<lambda>cb. X cb None = None) (subscriptions s)
                             @ take 1 (dropWhile (\<lambda>cb. X cb None = None) (subscriptions s)))\<rparr>,
            case dropWhile (\<lambda>cb. X cb None = None) (subscriptions s) of
              [] \<Rightarrow> None | cb # rest \<Rightarrow> X cb None)
       \<and> ((\<forall>cb \<in> set (subscriptions s). X cb None = None) \<longrightarrow>
            process_msg X s \<lparr>msg_type = BINARY, msg_data = Some (Bytes raw)\<rparr>
            = ((check_crc s (butlast (tl raw)))
                 \<lparr>trace := trace (check_crc s (butlast (tl raw)))
                           @ map (\<lambda>cb. Called cb None) (subscriptions s)\<rparr>, None))"
proof -
  let ?d = "butlast (tl raw)"
  have run: "run_decoders (check_crc s ?d) (hexbuf ?d) = (check_crc s ?d, Inr None)"
    using assms(2) try_decoders_all_None [OF assms(3)] by (simp add: run_decoders_def)
  have p: "process_msg X s \<lparr>msg_type = BINARY, msg_data = Some (Bytes raw)\<rparr>
           = dispatch X (subscriptions s) None (check_crc s ?d)"
    using valid_frame [OF assms(1)] run
    by (simp add: process_msg_def process_frame_def Let_def)
  have g: "dispatch X (subscriptions s) None (check_crc s ?d)
         = ((check_crc s ?d)
              \<lparr>trace := trace (check_crc s ?d)
                        @ map (\<lambda>cb. Called cb None)
                            (takeWhile (\<lambda>cb. X cb None = None) (subscriptions s)
                             @ take 1 (dropWhile (\<lambda>cb. X cb None = None) (subscriptions s)))\<rparr>,
            case dropWhile (\<lambda>cb. X cb None = None) (subscriptions s) of
              [] \<Rightarrow> None | cb # rest \<Rightarrow> X cb None)"
    by (rule dispatch_general)
  have a: "dispatch X (subscriptions s) None (check_crc s ?d)
        = ((check_crc s ?d)\<lparr>trace := trace (check_crc s ?d)
                        @ map (\<lambda>cb. Called cb None) (subscriptions s)\<rparr>, None)"
    if "\<forall>cb \<in> set (subscriptions s). X cb None = None"
    using that by (intro dispatch_all_return) simp
  show ?thesis
    unfolding p using g a by blast
qed

theorem undecodable_frame_dispatches_None_witness:
  "pkt_type (hexbuf payload_type_0D) = ''0D''
   \<and> decode_kaifa (hexbuf payload_type_0D) = Inr None
   \<and> process_msg (\<lambda>c r. None) ((init :: nat manager)\<lparr>subscriptions := [1, 2]\<rparr>)
         (binary (framed payload_type_0D))
       = (init\<lparr>subscriptions := [1, 2], trace := [Called 1 None, Called 2 None]\<rparr>, None)
   \<and> process_msg (\<lambda>c r. if c = 2 then Some TypeError else None)
         ((init :: nat manager)\<lparr>subscriptions := [1, 2, 3]\<rparr>) (binary (framed payload_type_0D))
       = (init\<lparr>subscriptions := [1, 2, 3], trace := [Called 1 None, Called 2 None]\<rparr>,
          Some TypeError)"
proof -
  let ?s = "(init :: nat manager)\<lparr>subscriptions := [1, 2]\<rparr>"
  let ?t = "(init :: nat manager)\<lparr>subscriptions := [1, 2, 3]\<rparr>"
  have l: "7 \<le> length payload_type_0D"
    by (simp add: length_samples)
  have b: "butlast (tl (framed payload_type_0D)) = payload_type_0D"
    by (rule framed_valid(3) [OF l])
  have h1: "9 \<le> length (framed payload_type_0D) \<and> hd (framed payload_type_0D) = 126
            \<and> last (framed payload_type_0D) = 126"
    by (rule framed_valid(1) [OF l])
  have h2: "default_decoder u (hexbuf (butlast (tl (framed payload_type_0D)))) = Inr None"
    if "default_decoder u = decode_kaifa" for u :: "nat manager"
    using that by (simp only: b) (simp add: decode_payload_type_0D)
  have h3: "\<forall>dec \<in> set (decoders u). dec (hexbuf (butlast (tl (framed payload_type_0D)))) = Inr None"
    if "decoders u = [decode_kaifa]" for u :: "nat manager"
    using that by (simp only: b) (simp add: decode_payload_type_0D)
  have c: "check_crc u payload_type_0D = u" if "crc u = crc init" for u :: "nat manager"
    using that by (intro check_crc_type_0D) (simp add: init_fields)
  have s: "default_decoder ?s = decode_kaifa" "decoders ?s = [decode_kaifa]" "crc ?s = crc init"
    "trace ?s = []" "subscriptions ?s = [1, 2]"
    by (simp_all add: init_fields)
  have t: "default_decoder ?t = decode_kaifa" "decoders ?t = [decode_kaifa]" "crc ?t = crc init"
    "trace ?t = []" "subscriptions ?t = [1, 2, 3]"
    by (simp_all add: init_fields)
  have "process_msg (\<lambda>c r. None) ?s (binary (framed payload_type_0D))
        = (?s\<lparr>trace := [] @ map (\<lambda>cb. Called cb None) [1, 2]\<rparr>, None)"
    using undecodable_frame_dispatches_None
            [of "framed payload_type_0D" ?s "\<lambda>c r. None", OF h1 h2 [OF s(1)] h3 [OF s(2)],
             THEN conjunct2]
    by (simp only: b c [OF s(3)] s(4) s(5)) simp
  moreover have "process_msg (\<lambda>c r. if c = 2 then Some TypeError else None) ?t
                   (binary (framed payload_type_0D))
        = (?t\<lparr>trace := [] @ map (\<lambda>cb. Called cb None) [1, 2]\<rparr>, Some TypeError)"
    using undecodable_frame_dispatches_None
            [of "framed payload_type_0D" ?t "\<lambda>c r. if c = 2 then Some TypeError else None",
             OF h1 h2 [OF t(1)] h3 [OF t(2)], THEN conjunct1]
    by (simp only: b c [OF t(3)] t(4) t(5)) simp
  ultimately show ?thesis
    by (simp add: pkt_type_samples decode_payload_type_0D)
qed

lemma dispatch_shape:
  "\<exists>tr e. \<forall>s. dispatch X cbs r s = (s\<lparr>trace := trace s @ tr\<rparr>, e)"
proof (induction cbs)
  case Nil
  show ?case by (rule exI [of _ "[]"]) simp
next
  case (Cons cb cbs)
  then obtain tr e where IH: "\<And>s. dispatch X cbs r s = (s\<lparr>trace := trace s @ tr\<rparr>, e)"
    by blast
  show ?case
  proof (cases "X cb r")
    case None
    then have "\<forall>s. dispatch X (cb # cbs) r s = (s\<lparr>trace := trace s @ (Called cb r # tr)\<rparr>, e)"
      by (simp add: IH emit_def)
    then show ?thesis by blast
  next
    case (Some e')
    then have "\<forall>s. dispatch X (cb # cbs) r s = (s\<lparr>trace := trace s @ [Called cb r]\<rparr>, Some e')"
      by (simp add: emit_def)
    then show ?thesis by blast
  qed
qed

lemma run_decoders_frame:
  "run_decoders (s\<lparr>trace := tr, crc := g\<rparr>) buf
   = (case run_decoders s buf of (t, r) \<Rightarrow> (t\<lparr>trace := tr, crc := g\<rparr>, r))"
  by (simp add: run_decoders_def split: sum.splits option.splits prod.splits)


lemma run_decoders_trace:
  "run_decoders (s\<lparr>trace := tr\<rparr>) buf
   = (case run_decoders s buf of (t, r) \<Rightarrow> (t\<lparr>trace := tr\<rparr>, r))"
  by (simp add: run_decoders_def split: sum.splits option.splits prod.splits)

lemma run_decoders_fields:
  "run_decoders s buf = (t, r) \<Longrightarrow> subscriptions t = subscriptions s \<and> trace t = trace s \<and> crc t = crc s"
  by (auto simp: run_decoders_def split: sum.splits option.splits prod.splits)

lemma check_crc_cases:
  "check_crc s d = s\<lparr>trace := trace s @
      (if crc s (take (length d - 2) d) XOR 0xffff = unpack_H (drop (length d - 2) d) then []
       else [Log_error (Invalid_crc (crc s (take (length d - 2) d) XOR 0xffff)
                                    (unpack_H (drop (length d - 2) d)))])\<rparr>"
  by (simp add: check_crc_def emit_def Let_def)

lemma without_crc_log_append [simp]:
  "without_crc_log (a @ b) = without_crc_log a @ without_crc_log b"
  by (simp add: without_crc_log_def)

lemma without_crc_log_simps [simp]:
  "without_crc_log [] = []"
  "without_crc_log [Log_error (Invalid_crc c stored)] = []"
  by (simp_all add: without_crc_log_def)

lemma process_frame_shape:
  "\<exists>t0 tr e. \<forall>g.
      process_frame X (s\<lparr>crc := g\<rparr>) raw = (t0\<lparr>crc := g, trace := trace (check_crc (s\<lparr>crc := g\<rparr>) (butlast (tl raw))) @ tr\<rparr>, e)"
proof -
  let ?d = "butlast (tl raw)"
  obtain t0 r0 where run: "run_decoders s (hexbuf ?d) = (t0, r0)"
    by (cases "run_decoders s (hexbuf ?d)")
  have subs: "subscriptions t0 = subscriptions s"
    using run_decoders_fields [OF run] by simp
  have run': "run_decoders (check_crc (s\<lparr>crc := g\<rparr>) ?d) (hexbuf ?d)
              = (t0\<lparr>crc := g, trace := trace (check_crc (s\<lparr>crc := g\<rparr>) ?d)\<rparr>, r0)" for g
  proof -
    have "check_crc (s\<lparr>crc := g\<rparr>) ?d = s\<lparr>trace := trace (check_crc (s\<lparr>crc := g\<rparr>) ?d), crc := g\<rparr>"
      by (simp add: check_crc_def emit_def Let_def)
    then have "run_decoders (check_crc (s\<lparr>crc := g\<rparr>) ?d) (hexbuf ?d)
               = run_decoders (s\<lparr>trace := trace (check_crc (s\<lparr>crc := g\<rparr>) ?d), crc := g\<rparr>) (hexbuf ?d)"
      by simp
    also have "\<dots> = (t0\<lparr>trace := trace (check_crc (s\<lparr>crc := g\<rparr>) ?d), crc := g\<rparr>, r0)"
      using run by (simp add: run_decoders_frame)
    finally show ?thesis by (cases t0) simp
  qed
  show ?thesis
  proof (cases r0)
    case (Inl e)
    have "\<forall>g. process_frame X (s\<lparr>crc := g\<rparr>) raw
            = (t0\<lparr>crc := g, trace := trace (check_crc (s\<lparr>crc := g\<rparr>) ?d) @ []\<rparr>, Some e)"
      using Inl by (simp add: process_frame_def Let_def run')
    then show ?thesis by blast
  next
    case (Inr decoded)
    obtain tr e where D: "\<And>u. dispatch X (subscriptions s) decoded u = (u\<lparr>trace := trace u @ tr\<rparr>, e)"
      using dispatch_shape [of X "subscriptions s" decoded] by blast
    have "\<forall>g. process_frame X (s\<lparr>crc := g\<rparr>) raw
            = (t0\<lparr>crc := g, trace := trace (check_crc (s\<lparr>crc := g\<rparr>) ?d) @ tr\<rparr>, e)"
      using Inr by (simp add: process_frame_def Let_def run' subs D)
    then show ?thesis by blast
  qed
qed

text \<open>
  Claim C2. For a structurally valid binary frame with payload \<open>d\<close>, the frame without
  its delimiters, the checksum function of the manager is applied to \<open>d\<close> without its
  last two bytes, the result is inverted bitwise on 16 bits and compared with the
  little-endian integer of the last two bytes; the one effect of a mismatch is the logged
  message, which precedes everything else the message does. What processing returns or
  raises, and the manager it leaves, do not depend on the checksum function: with any other
  function \<open>g\<close> in its place they are the same, up to the checksum messages in the log.
  The checksum function of a new manager is \<open>mkCrcFun 0x11021 True 0xffff 0\<close>, by
  \<open>init_fields\<close>; it is evaluated on the sample frames in \<open>check_crc_01\<close> and
  \<open>check_crc_bad\<close>.
\<close>

theorem checksum_is_advisory:
  fixes s :: "'cb manager" and raw :: "byte list"
  assumes "9 \<le> length raw \<and> hd raw = 126 \<and> last raw = 126"
  defines "d \<equiv> butlast (tl raw)"
  defines "computed \<equiv> crc s (take (length d - 2) d) XOR 0xffff"
      and "stored \<equiv> unpack_H (drop (length d - 2) d)"
  defines "m \<equiv> \<lparr>msg_type = BINARY, msg_data = Some (Bytes raw)\<rparr>"
  shows "trace (check_crc s d)
           = trace s @ (if computed = stored then [] else [Log_error (Invalid_crc computed stored)])
       \<and> take (length (trace (check_crc s d))) (trace (fst (process_msg X s m))) = trace (check_crc s d)
       \<and> snd (process_msg X (s\<lparr>crc := g\<rparr>) m) = snd (process_msg X s m)
       \<and> (fst (process_msg X (s\<lparr>crc := g\<rparr>) m))
            \<lparr>crc := crc s, trace := without_crc_log (trace (fst (process_msg X (s\<lparr>crc := g\<rparr>) m)))\<rparr>
          = (fst (process_msg X s m))
            \<lparr>trace := without_crc_log (trace (fst (process_msg X s m)))\<rparr>"
proof -
  have valid: "\<not> structurally_invalid raw"
    using assms(1) by (rule valid_frame)
  have pm: "process_msg X (s\<lparr>crc := h\<rparr>) m = process_frame X (s\<lparr>crc := h\<rparr>) raw" for h
    using valid by (simp add: process_msg_def m_def)
  obtain t0 tr e where F: "\<And>h. process_frame X (s\<lparr>crc := h\<rparr>) raw
        = (t0\<lparr>crc := h, trace := trace (check_crc (s\<lparr>crc := h\<rparr>) d) @ tr\<rparr>, e)"
    using process_frame_shape [of X s raw] unfolding d_def by blast
  have s_eq: "s\<lparr>crc := crc s\<rparr> = s" by simp
  have P: "process_msg X s m = (t0\<lparr>crc := crc s, trace := trace (check_crc s d) @ tr\<rparr>, e)"
    using pm [of "crc s"] F [of "crc s"] by (simp only: s_eq)
  have P': "process_msg X (s\<lparr>crc := g\<rparr>) m
            = (t0\<lparr>crc := g, trace := trace (check_crc (s\<lparr>crc := g\<rparr>) d) @ tr\<rparr>, e)"
    using pm [of g] F [of g] by simp
  have c1: "trace (check_crc s d)
           = trace s @ (if computed = stored then [] else [Log_error (Invalid_crc computed stored)])"
    by (simp add: check_crc_cases computed_def stored_def)
  have w: "without_crc_log (trace (check_crc u d)) = without_crc_log (trace u)" for u :: "'a manager"
    by (simp add: check_crc_cases)
  show ?thesis
    using c1 by (simp add: P P' w)
qed

theorem checksum_is_advisory_witness:
  "process_msg (\<lambda>c r. None) ((init :: nat manager)\<lparr>subscriptions := [1]\<rparr>)
         (binary (framed payload_bad_crc))
       = (init\<lparr>subscriptions := [1],
                trace := [Log_error (Invalid_crc 44459 44203),
                          Called 1 (Some [(''time_stamp'', Py_datetime (Datetime 2017 9 14 19 31 2)),
                                          (''Effect'', Py_int 920)])]\<rparr>, None)
   \<and> snd (process_msg (\<lambda>c r. None) ((init :: nat manager)\<lparr>subscriptions := [1], crc := (\<lambda>b. 21332)\<rparr>)
              (binary (framed payload_bad_crc))) = None
   \<and> without_crc_log (trace (fst (process_msg (\<lambda>c r. None)
              ((init :: nat manager)\<lparr>subscriptions := [1], crc := (\<lambda>b. 21332)\<rparr>)
              (binary (framed payload_bad_crc)))))
       = [Called 1 (Some [(''time_stamp'', Py_datetime (Datetime 2017 9 14 19 31 2)),
                          (''Effect'', Py_int 920)])]"
proof -
  let ?s = "(init :: nat manager)\<lparr>subscriptions := [1]\<rparr>"
  let ?m = "binary (framed payload_bad_crc)"
  let ?X = "\<lambda>(c :: nat) (r :: reading option). None :: py_error option"
  have l: "7 \<le> length payload_bad_crc"
    by (simp add: length_samples)
  have v: "9 \<le> length (framed payload_bad_crc) \<and> hd (framed payload_bad_crc) = 126
           \<and> last (framed payload_bad_crc) = 126"
    by (rule framed_valid(1) [OF l])
  have c: "check_crc t payload_bad_crc = emit (Log_error (Invalid_crc 44459 44203)) t"
    if "crc t = crc init" for t :: "nat manager"
    using that by (intro check_crc_bad) (simp add: init_fields)
  have e: "process_msg ?X ?s ?m
       = (init\<lparr>subscriptions := [1],
                trace := [Log_error (Invalid_crc 44459 44203),
                          Called 1 (Some [(''time_stamp'', Py_datetime (Datetime 2017 9 14 19 31 2)),
                                          (''Effect'', Py_int 920)])]\<rparr>, None)"
    by (simp add: process_framed [OF l] process_frame_configured decode_payload_bad_crc
          c init_fields emit_def)
  note th = checksum_is_advisory [OF v, of ?s ?X "\<lambda>b. 21332"]
  have c3: "snd (process_msg ?X (?s\<lparr>crc := (\<lambda>b. 21332)\<rparr>) ?m) = snd (process_msg ?X ?s ?m)"
    by (rule th [THEN conjunct2, THEN conjunct2, THEN conjunct1])
  have c4: "(fst (process_msg ?X (?s\<lparr>crc := (\<lambda>b. 21332)\<rparr>) ?m))
            \<lparr>crc := crc ?s, trace := without_crc_log (trace (fst (process_msg ?X (?s\<lparr>crc := (\<lambda>b. 21332)\<rparr>) ?m)))\<rparr>
          = (fst (process_msg ?X ?s ?m))
            \<lparr>trace := without_crc_log (trace (fst (process_msg ?X ?s ?m)))\<rparr>"
    by (rule th [THEN conjunct2, THEN conjunct2, THEN conjunct2])
  have "trace ((fst (process_msg ?X (?s\<lparr>crc := (\<lambda>b. 21332)\<rparr>) ?m))
            \<lparr>crc := crc ?s, trace := without_crc_log (trace (fst (process_msg ?X (?s\<lparr>crc := (\<lambda>b. 21332)\<rparr>) ?m)))\<rparr>)
        = trace ((fst (process_msg ?X ?s ?m))
            \<lparr>trace := without_crc_log (trace (fst (process_msg ?X ?s ?m)))\<rparr>)"
    by (simp only: c4)
  moreover have "trace (a\<lparr>crc := h, trace := T\<rparr>) = T" "trace (a\<lparr>trace := T\<rparr>) = T"
    for a :: "nat manager" and h T
    by simp_all
  ultimately have w: "without_crc_log (trace (fst (process_msg ?X (?s\<lparr>crc := (\<lambda>b. 21332)\<rparr>) ?m)))
        = without_crc_log (trace (fst (process_msg ?X ?s ?m)))"
    by (simp only:)
  have r: "without_crc_log (trace (fst (process_msg ?X ?s ?m)))
           = [Called 1 (Some [(''time_stamp'', Py_datetime (Datetime 2017 9 14 19 31 2)),
                          (''Effect'', Py_int 920)])]"
    by (simp only: e) (simp add: without_crc_log_def)
  have q: "snd (process_msg ?X ?s ?m) = None"
    by (simp only: e) simp
  show ?thesis
    by (intro conjI) (rule e, simp only: c3 q, simp only: w r)
qed

section \<open>The state machine: \<open>start\<close> and \<open>retry\<close>\<close>

text \<open>
  Claim C8. Calling \<open>start\<close> while the state is Running changes nothing: no task is
  created, none is cancelled, the state stays. Calling \<open>retry\<close> while the state is
  Starting or Running changes nothing either: no timer is scheduled, the state stays.
  The manager a call returns is the manager it was given, trace included.
\<close>

theorem start_retry_noop:
  "(state s = Some STATE_RUNNING \<longrightarrow> start s = s)
   \<and> (state s = Some STATE_STARTING \<or> state s = Some STATE_RUNNING \<longrightarrow> retry s = s)"
  by (auto simp: start_def retry_def)

theorem start_retry_noop_witness:
  "state ((init :: nat manager)\<lparr>state := Some STATE_RUNNING, client_task := Some Handle\<rparr>)
     = Some STATE_RUNNING
   \<and> start ((init :: nat manager)\<lparr>state := Some STATE_RUNNING, client_task := Some Handle\<rparr>)
       = init\<lparr>state := Some STATE_RUNNING, client_task := Some Handle\<rparr>
   \<and> retry ((init :: nat manager)\<lparr>state := Some STATE_RUNNING, client_task := Some Handle\<rparr>)
       = init\<lparr>state := Some STATE_RUNNING, client_task := Some Handle\<rparr>
   \<and> trace (retry ((init :: nat manager)\<lparr>state := Some STATE_STARTING\<rparr>)) = []
   \<and> state (retry ((init :: nat manager)\<lparr>state := Some STATE_STARTING\<rparr>)) = Some STATE_STARTING"
  using start_retry_noop [of "(init :: nat manager)\<lparr>state := Some STATE_RUNNING, client_task := Some Handle\<rparr>"]
        start_retry_noop [of "(init :: nat manager)\<lparr>state := Some STATE_STARTING\<rparr>"]
  by (simp add: init_def)

text \<open>
  Claim C6, as stated: after \<open>retry\<close> in state Stopped the state stays Stopped until the
  timer fires. It does not: line 141 sets the state to Starting inside \<open>retry\<close>, so
  with the timer scheduled and not yet fired the state is Starting.
\<close>

theorem retry_state_counterexample:
  "state ((init :: nat manager)\<lparr>state := Some STATE_STOPPED\<rparr>) = Some STATE_STOPPED
   \<and> retry_timer (retry ((init :: nat manager)\<lparr>state := Some STATE_STOPPED\<rparr>)) = Some Handle
   \<and> trace (retry ((init :: nat manager)\<lparr>state := Some STATE_STOPPED\<rparr>)) = [Timer_scheduled 15]
   \<and> state (retry ((init :: nat manager)\<lparr>state := Some STATE_STOPPED\<rparr>)) \<noteq> Some STATE_STOPPED"
  by (simp add: init_def retry_def cancel_retry_timer_def emit_def)

text \<open>
  Claim C6, amended. When \<open>retry\<close> is called in state Stopped, the state becomes Starting
  within the call, which cancels a pending timer and schedules a new one with the
  manager's delay; the state is Starting while the timer is pending. When the timer
  fires it calls \<open>start\<close>, which leaves the state Starting, cancels a pending task and
  creates the connection task.
\<close>

theorem retry_sets_starting:
  assumes "state s = Some STATE_STOPPED"
  shows "state (retry s) = Some STATE_STARTING
     \<and> retry_timer (retry s) = Some Handle
     \<and> trace (retry s) = trace (cancel_retry_timer s) @ [Timer_scheduled (wait_time_before_retry s)]
     \<and> state (start (retry s)) = Some STATE_STARTING
     \<and> trace (start (retry s)) = trace (cancel_client_task (retry s)) @ [Task_created]"
  using assms
  by (simp add: retry_def start_def cancel_retry_timer_def cancel_client_task_def emit_def Let_def)

theorem retry_sets_starting_witness:
  "state ((init :: nat manager)\<lparr>state := Some STATE_STOPPED\<rparr>) = Some STATE_STOPPED
   \<and> state (retry ((init :: nat manager)\<lparr>state := Some STATE_STOPPED\<rparr>)) = Some STATE_STARTING
   \<and> trace (retry ((init :: nat manager)\<lparr>state := Some STATE_STOPPED\<rparr>)) = [Timer_scheduled 15]
   \<and> trace (start (retry ((init :: nat manager)\<lparr>state := Some STATE_STOPPED\<rparr>)))
       = [Timer_scheduled 15, Task_created]"
  using retry_sets_starting [of "(init :: nat manager)\<lparr>state := Some STATE_STOPPED\<rparr>"]
  by (simp add: init_def cancel_retry_timer_def cancel_client_task_def retry_def emit_def)

section \<open>Frame validation\<close>

text \<open>
  Claim C3. A binary message shorter than 9 bytes, or whose first or last byte is not
  126, is dropped: \<open>process_msg\<close> returns without an exception, and the manager it
  returns differs from the one it was given by the logged error alone, so no callback was
  called and no decoder chosen. This holds for every manager, whatever its decoders would
  do (also if each of them raised), so no decoder ran.
\<close>

theorem invalid_frame_dropped:
  assumes "length d < 9 \<or> hd d \<noteq> 126 \<or> last d \<noteq> 126"
  shows "process_msg X s \<lparr>msg_type = BINARY, msg_data = Some (Bytes d)\<rparr>
         = (s\<lparr>trace := trace s @ [Log_error Invalid_data]\<rparr>, None)"
proof -
  have "structurally_invalid d"
    using assms by (cases d) (auto simp: structurally_invalid_def FEND_def)
  then show ?thesis
    by (simp add: process_msg_def emit_def)
qed

theorem invalid_frame_dropped_witness:
  "length [126, 1, 2, 3, 4, 5, 6, 126 :: byte] < 9
   \<and> process_msg (\<lambda>c r. Some External_error) ((init :: nat manager)\<lparr>subscriptions := [1]\<rparr>)
         (binary [126, 1, 2, 3, 4, 5, 6, 126])
       = (init\<lparr>subscriptions := [1], trace := [Log_error Invalid_data]\<rparr>, None)
   \<and> hd (0 # payload_01 @ [126]) \<noteq> 126
   \<and> process_msg (\<lambda>c r. None) ((init :: nat manager)\<lparr>subscriptions := [1]\<rparr>)
         (binary (0 # payload_01 @ [126]))
       = (init\<lparr>subscriptions := [1], trace := [Log_error Invalid_data]\<rparr>, None)"
  using invalid_frame_dropped [of "[126, 1, 2, 3, 4, 5, 6, 126]" "\<lambda>c r. Some External_error"
          "(init :: nat manager)\<lparr>subscriptions := [1]\<rparr>"]
        invalid_frame_dropped [of "0 # payload_01 @ [126]" "\<lambda>c r. None"
          "(init :: nat manager)\<lparr>subscriptions := [1]\<rparr>"]
  by (simp add: init_def)

end
